theory Spec2Isabelle
  imports Complex_Main "HOL-Library.Word" "HOL-Library.Stream" "HOL-Library.Log_Nat"
    "HOL-Library.Monad_Syntax"
begin

unbundle bit_operations_syntax

text \<open>
  A model of the platform layer of the PIC32CM evaluation-board firmware:
  \<^verbatim>\<open>platform/gpio.c\<close> (pushbutton event capture, LED blinking, bring-up) over the
  registers it touches, and the tick and serial operations that \<^verbatim>\<open>platform.h\<close>
  declares. The functions of \<^verbatim>\<open>gpio.c\<close> are state transformers on a machine that
  records every register access; a function with a busy-wait returns an \<open>option\<close>, with
  \<open>None\<close> for a wait that the hardware never ends.
\<close>

section \<open>Hardware registers and the machine state\<close>

text \<open>
  The peripheral registers that \<^verbatim>\<open>platform/gpio.c\<close> touches. \<open>PORT_PINCFG n\<close> and
  \<open>PORT_PMUX n\<close> are the indexed registers of PORT group 0, \<open>GCLK_PCHCTRL4\<close> is
  \<^verbatim>\<open>GCLK_PCHCTRL[4]\<close>, \<open>TC_CC0\<close> is \<^verbatim>\<open>TC0 COUNT16.TC_CC[0]\<close>. \<open>PORT_OUT\<close> and
  \<open>PORT_DIR\<close> are never named by the code: they are the output-level and direction
  latches behind the OUTSET/OUTCLR and DIRSET/DIRCLR registers.
\<close>

datatype reg =
    GCLK_PCHCTRL4
  | EIC_CTRLA | EIC_SYNCBUSY | EIC_DPRESCALER | EIC_PINSTATE | EIC_INTFLAG
  | EIC_DEBOUNCEN | EIC_CONFIG0 | EIC_INTENSET
  | EVSYS_CTRLA
  | PORT_DIRSET | PORT_DIRCLR | PORT_OUTSET | PORT_OUTCLR
  | PORT_PINCFG nat | PORT_PMUX nat
  | PORT_OUT | PORT_DIR
  | TC_CTRLBSET | TC_SYNCBUSY | TC_COUNT | TC_CC0

text \<open>
  Functions that \<^verbatim>\<open>platform_init\<close> calls and whose bodies live in other files of the
  platform layer (\<^verbatim>\<open>clk.c\<close>, the SysTick and USART components).
\<close>

datatype extern_fn = raise_perf_level | TC0_Init | platform_usart_init | platform_systick_init

datatype irqn = EIC_EXTINT_2_IRQn | SysTick_IRQn

text \<open>
  Everything the code does to the outside world, in program order: register reads and
  writes, calls into the other platform files, and the CMSIS core intrinsics.
\<close>

datatype event =
    Rd reg
  | Wr reg "32 word"
  | Call extern_fn
  | DMB
  | Enable_irq
  | NVIC_SetPriority irqn nat
  | NVIC_EnableIRQ irqn

text \<open>
  Modelled from the spec: \<^verbatim>\<open>blink_settings.h\<close>, which declares \<^verbatim>\<open>currentSetting\<close> and
  its enumeration, is not among the sources. The five enumerators are the case labels of
  the \<^verbatim>\<open>switch\<close> in \<^verbatim>\<open>platform_blink_modify\<close> and the spec's \<open>BlinkMode\<close>.
\<close>

datatype blink_setting = OFF | SLOW | MEDIUM | FAST | ON

text \<open>
  The machine: the two globals of the program that the modelled functions use, the
  values held by the registers, what the hardware will answer to the reads of the
  registers it drives itself (one infinite sequence of answers per register, consumed
  one answer per read), and the trace of events so far.
\<close>

record machine =
  pb_press_mask :: "16 word"
  currentSetting :: blink_setting
  store :: "reg \<Rightarrow> 32 word"
  inputs :: "reg \<Rightarrow> 32 word stream"
  trace :: "event list"

text \<open>
  Registers whose read value is decided by the hardware and not by the last write:
  the counter, the synchronisation-busy flags, the pin state and interrupt flags, the
  control register of the EIC (it resets itself) and the GCLK channel control (its
  enable bit reads back only once the channel is synchronised).
\<close>

fun hw_driven :: "reg \<Rightarrow> bool" where
  "hw_driven TC_COUNT = True"
| "hw_driven TC_SYNCBUSY = True"
| "hw_driven EIC_SYNCBUSY = True"
| "hw_driven EIC_PINSTATE = True"
| "hw_driven EIC_INTFLAG = True"
| "hw_driven EIC_CTRLA = True"
| "hw_driven GCLK_PCHCTRL4 = True"
| "hw_driven _ = False"

text \<open>The latch a register gives access to: OUTSET and OUTCLR read as OUT, DIRSET and DIRCLR as DIR.\<close>

fun latch :: "reg \<Rightarrow> reg" where
  "latch PORT_OUTSET = PORT_OUT"
| "latch PORT_OUTCLR = PORT_OUT"
| "latch PORT_DIRSET = PORT_DIR"
| "latch PORT_DIRCLR = PORT_DIR"
| "latch r = r"

definition reg_read :: "reg \<Rightarrow> machine \<Rightarrow> 32 word \<times> machine" where
  "reg_read r s =
     (if hw_driven r
      then (shd (inputs s r),
            s\<lparr>inputs := (inputs s)(r := stl (inputs s r)), trace := trace s @ [Rd r]\<rparr>)
      else (store s (latch r), s\<lparr>trace := trace s @ [Rd r]\<rparr>))"

text \<open>
  A write to a SET register raises the bits written as one in the latch, a write to a
  CLR register lowers them; every other register keeps the value written.
\<close>

fun written :: "reg \<Rightarrow> 32 word \<Rightarrow> 32 word \<Rightarrow> 32 word" where
  "written PORT_OUTSET old v = old OR v"
| "written PORT_DIRSET old v = old OR v"
| "written PORT_OUTCLR old v = old AND NOT v"
| "written PORT_DIRCLR old v = old AND NOT v"
| "written r old v = v"

definition reg_write :: "reg \<Rightarrow> 32 word \<Rightarrow> machine \<Rightarrow> machine" where
  "reg_write r v s =
     s\<lparr>store := (store s)(latch r := written r (store s (latch r)) v),
       trace := trace s @ [Wr r v]\<rparr>"

definition emit :: "event \<Rightarrow> machine \<Rightarrow> machine" where
  "emit e s = s\<lparr>trace := trace s @ [e]\<rparr>"

section \<open>Pushbutton event capture\<close>

definition PLATFORM_PB_ONBOARD_PRESS :: "16 word" where
  "PLATFORM_PB_ONBOARD_PRESS = 0x0001"

definition PLATFORM_PB_ONBOARD_RELEASE :: "16 word" where
  "PLATFORM_PB_ONBOARD_RELEASE = 0x0002"

definition PLATFORM_PB_ONBOARD_MASK :: "16 word" where
  "PLATFORM_PB_ONBOARD_MASK = PLATFORM_PB_ONBOARD_PRESS OR PLATFORM_PB_ONBOARD_RELEASE"

text \<open>
  The interrupt handler of EXTINT[2]: clear both button bits of the mask, set one of
  them from bit 2 of \<^verbatim>\<open>EIC_PINSTATE\<close>, then acknowledge the interrupt with a
  read-modify-write of \<^verbatim>\<open>EIC_INTFLAG\<close>.
\<close>

definition EIC_EXTINT_2_Handler :: "machine \<Rightarrow> machine" where
  "EIC_EXTINT_2_Handler s0 =
     (let s1 = s0\<lparr>pb_press_mask := pb_press_mask s0 AND NOT PLATFORM_PB_ONBOARD_MASK\<rparr>;
          (pin, s2) = reg_read EIC_PINSTATE s1;
          s3 = (if pin AND push_bit 2 1 = 0
                then s2\<lparr>pb_press_mask := pb_press_mask s2 OR PLATFORM_PB_ONBOARD_PRESS\<rparr>
                else s2\<lparr>pb_press_mask := pb_press_mask s2 OR PLATFORM_PB_ONBOARD_RELEASE\<rparr>);
          (flag, s4) = reg_read EIC_INTFLAG s3
      in reg_write EIC_INTFLAG (flag OR push_bit 2 1) s4)"

definition platform_pb_get_event :: "machine \<Rightarrow> 16 word \<times> machine" where
  "platform_pb_get_event s =
     (let cache = pb_press_mask s
      in (cache, s\<lparr>pb_press_mask := 0\<rparr>))"

text \<open>
  The states the mask can be in: it is zero at reset, and afterwards only the handler
  and \<^verbatim>\<open>platform_pb_get_event\<close> assign it.
\<close>

inductive pb_reachable :: "machine \<Rightarrow> bool" where
  pb_reset: "pb_press_mask s = 0 \<Longrightarrow> pb_reachable s"
| pb_irq: "pb_reachable s \<Longrightarrow> pb_reachable (EIC_EXTINT_2_Handler s)"
| pb_get: "pb_reachable s \<Longrightarrow> pb_reachable (snd (platform_pb_get_event s))"

text \<open>Concrete machines for the examples: everything zero, the hardware answering zero.\<close>

definition idle_inputs :: "reg \<Rightarrow> 32 word stream" where
  "idle_inputs r = sconst 0"

definition zero_store :: "reg \<Rightarrow> 32 word" where
  "zero_store r = 0"

definition reset_machine :: machine where
  "reset_machine =
     \<lparr>pb_press_mask = 0, currentSetting = OFF, store = zero_store,
      inputs = idle_inputs, trace = []\<rparr>"

text \<open>The pin reads pressed (bit 2 low) at the first interrupt and released (bit 2 high) at the second.\<close>

definition press_release_machine :: machine where
  "press_release_machine =
     reset_machine\<lparr>inputs := idle_inputs(EIC_PINSTATE := 0 ## 4 ## sconst 4)\<rparr>"

section \<open>Double-precision arithmetic\<close>

text \<open>
  The thresholds of \<^verbatim>\<open>platform_blink_modify\<close> are computed in C's \<^verbatim>\<open>double\<close>:
  \<^verbatim>\<open>TC_CC[0]*0.9\<close> converts the register value to double and multiplies it by the
  double nearest to 0.9. A finite double is modelled by the rational number it denotes,
  and an operation by the exact operation followed by rounding to the nearest double
  (53 significant bits, ties to the even significand, gradual underflow below
  \<open>2\<^sup>-\<^sup>1\<^sup>0\<^sup>2\<^sup>2\<close>). Overflow to infinity is outside the model: the values here stay
  below \<open>2\<^sup>1\<^sup>7\<close>.
\<close>

definition pow2 :: "int \<Rightarrow> rat" where
  "pow2 e = (if 0 \<le> e then 2 ^ nat e else 1 / 2 ^ nat (- e))"

definition round_half_even :: "rat \<Rightarrow> int" where
  "round_half_even q =
     (let f = \<lfloor>q\<rfloor>; r = q - of_int f
      in if r < 1 / 2 then f
         else if 1 / 2 < r then f + 1
         else if even f then f else f + 1)"

text \<open>The exponent of a positive rational: the \<open>e\<close> with \<open>2\<^sup>e \<le> q < 2\<^sup>e\<^sup>+\<^sup>1\<close>.\<close>

definition ilog2 :: "rat \<Rightarrow> int" where
  "ilog2 q =
     (let e = bitlen (fst (quotient_of q)) - bitlen (snd (quotient_of q))
      in if q < pow2 e then e - 1 else e)"

definition round_double :: "rat \<Rightarrow> rat" where
  "round_double q =
     (if q = 0 then 0
      else let e = max (ilog2 \<bar>q\<bar>) (- 1022); u = pow2 (e - 52)
           in of_int (round_half_even (q / u)) * u)"

definition double_of_int :: "int \<Rightarrow> rat" where
  "double_of_int i = round_double (of_int i)"

definition double_mult :: "rat \<Rightarrow> rat \<Rightarrow> rat" where
  "double_mult a b = round_double (a * b)"

text \<open>The three literals \<^verbatim>\<open>0.9\<close>, \<^verbatim>\<open>0.8\<close> and \<^verbatim>\<open>0.5\<close> of the source.\<close>

definition lit_0_9 :: rat where "lit_0_9 = round_double (9 / 10)"
definition lit_0_8 :: rat where "lit_0_8 = round_double (8 / 10)"
definition lit_0_5 :: rat where "lit_0_5 = round_double (5 / 10)"

section \<open>Blinking\<close>

text \<open>
  The busy-wait loops \<^verbatim>\<open>while (REG & m);\<close> and \<^verbatim>\<open>while ((REG & m) == 0) asm("nop");\<close>:
  each iteration reads the register once. A loop that the hardware never releases does
  not return, which is the value \<open>None\<close>.
\<close>

partial_function (option) spin_while_set :: "reg \<Rightarrow> 32 word \<Rightarrow> machine \<Rightarrow> machine option" where
  "spin_while_set r m s =
     (if fst (reg_read r s) AND m \<noteq> 0
      then spin_while_set r m (snd (reg_read r s))
      else Some (snd (reg_read r s)))"

partial_function (option) spin_while_clear :: "reg \<Rightarrow> 32 word \<Rightarrow> machine \<Rightarrow> machine option" where
  "spin_while_clear r m s =
     (if fst (reg_read r s) AND m = 0
      then spin_while_clear r m (snd (reg_read r s))
      else Some (snd (reg_read r s)))"

text \<open>
  \<^verbatim>\<open>read_count\<close>: request read synchronisation, wait for bit 2 of \<^verbatim>\<open>TC_SYNCBUSY\<close> to
  clear, return the 16-bit \<^verbatim>\<open>TC_COUNT\<close> as an \<^verbatim>\<open>int\<close>.
\<close>

definition read_count :: "machine \<Rightarrow> (int \<times> machine) option" where
  "read_count s =
     do {
       s1 \<leftarrow> Some (reg_write TC_CTRLBSET (push_bit 5 4) s);
       s2 \<leftarrow> spin_while_set TC_SYNCBUSY (push_bit 2 1) s1;
       Some (uint (ucast (fst (reg_read TC_COUNT s2)) :: 16 word), snd (reg_read TC_COUNT s2))
     }"

text \<open>
  The value of the expression \<^verbatim>\<open>TC_CC[0]*d\<close>: one read of the 16-bit compare register,
  promoted to \<^verbatim>\<open>int\<close>, converted to double and multiplied by the double \<open>d\<close>.
\<close>

definition cc0_times :: "rat \<Rightarrow> machine \<Rightarrow> rat \<times> machine" where
  "cc0_times d s =
     (double_mult (double_of_int (uint (ucast (fst (reg_read TC_CC0 s)) :: 16 word))) d,
      snd (reg_read TC_CC0 s))"

text \<open>
  The body shared by the cases \<^verbatim>\<open>SLOW\<close>, \<^verbatim>\<open>MEDIUM\<close> and \<^verbatim>\<open>FAST\<close>, which differ in the
  compare value \<open>cc\<close> and the duty literal \<open>d\<close> only: write the compare register and
  wait for bit 6 of \<^verbatim>\<open>TC_SYNCBUSY\<close>; sample the counter and clear PA15 when the sample
  is below the threshold; sample the counter again and set PA15 when that sample is above
  the threshold. The operands of each comparison are evaluated left to right (C leaves
  the order open; the values do not depend on it).
\<close>

definition timed_blink :: "32 word \<Rightarrow> rat \<Rightarrow> machine \<Rightarrow> machine option" where
  "timed_blink cc d s =
     do {
       s1 \<leftarrow> Some (reg_write TC_CC0 cc s);
       s2 \<leftarrow> spin_while_set TC_SYNCBUSY (push_bit 6 1) s1;
       (c1, s3) \<leftarrow> read_count s2;
       (t1, s4) \<leftarrow> Some (cc0_times d s3);
       s5 \<leftarrow> Some (if double_of_int c1 < t1
                  then reg_write PORT_OUTCLR (push_bit 15 1) s4 else s4);
       (c2, s6) \<leftarrow> read_count s5;
       (t2, s7) \<leftarrow> Some (cc0_times d s6);
       Some (if t2 < double_of_int c2
             then reg_write PORT_OUTSET (push_bit 15 1) s7 else s7)
     }"

definition platform_blink_modify :: "machine \<Rightarrow> machine option" where
  "platform_blink_modify s =
     (case currentSetting s of
        OFF \<Rightarrow> Some (reg_write PORT_OUTCLR (push_bit 15 1) s)
      | SLOW \<Rightarrow> timed_blink 23438 lit_0_9 s
      | MEDIUM \<Rightarrow> timed_blink 11719 lit_0_8 s
      | FAST \<Rightarrow> timed_blink 7032 lit_0_5 s
      | ON \<Rightarrow> Some (reg_write PORT_OUTSET (push_bit 15 1) s))"

text \<open>The indicator is the active-high LED on PA15: bit 15 of the output latch.\<close>

definition led_on :: "machine \<Rightarrow> bool" where
  "led_on s = bit (store s PORT_OUT) 15"

text \<open>What a call added to the trace.\<close>

definition new_events :: "machine \<Rightarrow> machine \<Rightarrow> event list" where
  "new_events s s' = drop (length (trace s)) (trace s')"

fun is_led_write :: "event \<Rightarrow> bool" where
  "is_led_write (Wr PORT_OUTSET v) = True"
| "is_led_write (Wr PORT_OUTCLR v) = True"
| "is_led_write e = False"

text \<open>
  The hardware's side of a busy-wait: from some read on, the register answers with the
  bits of \<open>m\<close> clear.
\<close>

definition settles :: "32 word \<Rightarrow> 32 word stream \<Rightarrow> bool" where
  "settles m \<sigma> = (\<exists>n. \<forall>k\<ge>n. \<sigma> !! k AND m = 0)"

text \<open>
  The design constants as the spec lists them: period in ticks and duty as an exact
  fraction, for the three timed modes.
\<close>

fun spec_period :: "blink_setting \<Rightarrow> int" where
  "spec_period SLOW = 23438"
| "spec_period MEDIUM = 11719"
| "spec_period FAST = 7032"
| "spec_period _ = 0"

fun spec_duty :: "blink_setting \<Rightarrow> rat" where
  "spec_duty SLOW = 9 / 10"
| "spec_duty MEDIUM = 8 / 10"
| "spec_duty FAST = 5 / 10"
| "spec_duty _ = 0"

fun timed :: "blink_setting \<Rightarrow> bool" where
  "timed SLOW = True"
| "timed MEDIUM = True"
| "timed FAST = True"
| "timed _ = False"

text \<open>The threshold the code computes in a timed mode, as a double.\<close>

fun code_threshold :: "blink_setting \<Rightarrow> rat" where
  "code_threshold SLOW = double_mult (double_of_int 23438) lit_0_9"
| "code_threshold MEDIUM = double_mult (double_of_int 11719) lit_0_8"
| "code_threshold FAST = double_mult (double_of_int 7032) lit_0_5"
| "code_threshold _ = 0"

text \<open>The counter sample of the \<open>n\<close>-th read of \<^verbatim>\<open>TC_COUNT\<close> from a state on, as \<^verbatim>\<open>read_count\<close> returns it.\<close>

definition count_sample :: "nat \<Rightarrow> machine \<Rightarrow> int" where
  "count_sample n s = uint (ucast (inputs s TC_COUNT !! n) :: 16 word)"

text \<open>The state after \<open>n\<close> further reads of a register the hardware drives.\<close>

definition polled :: "reg \<Rightarrow> nat \<Rightarrow> machine \<Rightarrow> machine" where
  "polled r n s =
     s\<lparr>inputs := (inputs s)(r := sdrop n (inputs s r)), trace := trace s @ replicate n (Rd r)\<rparr>"

text \<open>
  A machine for the examples of the blink sequencer: mode \<open>m\<close>, output latch \<open>out\<close>,
  the counter reading \<open>c\<close> at every read, and no synchronisation ever pending.
\<close>

definition blink_machine :: "blink_setting \<Rightarrow> 32 word \<Rightarrow> 32 word \<Rightarrow> machine" where
  "blink_machine m out c =
     reset_machine\<lparr>currentSetting := m, store := zero_store(PORT_OUT := out),
                   inputs := idle_inputs(TC_COUNT := sconst c)\<rparr>"

section \<open>Initialisation\<close>

text \<open>The compound assignments \<^verbatim>\<open>REG |= m\<close> and \<^verbatim>\<open>REG &= ~m\<close>: one read, one write.\<close>

definition reg_set_bits :: "reg \<Rightarrow> 32 word \<Rightarrow> machine \<Rightarrow> machine" where
  "reg_set_bits r m s = reg_write r (fst (reg_read r s) OR m) (snd (reg_read r s))"

definition reg_clear_bits :: "reg \<Rightarrow> 32 word \<Rightarrow> machine \<Rightarrow> machine" where
  "reg_clear_bits r m s = reg_write r (fst (reg_read r s) AND NOT m) (snd (reg_read r s))"

text \<open>A block of statements without loops, run first to last.\<close>

definition statements :: "(machine \<Rightarrow> machine) list \<Rightarrow> machine \<Rightarrow> machine" where
  "statements fs s = fold (\<lambda>f t. f t) fs s"

text \<open>
  Modelled from the spec: the bodies of \<^verbatim>\<open>raise_perf_level\<close>, \<^verbatim>\<open>TC0_Init\<close>,
  \<^verbatim>\<open>platform_usart_init\<close> and \<^verbatim>\<open>platform_systick_init\<close> are not among the sources
  (the spec treats clock bring-up and the peripherals' register layouts as external
  collaborators). A call to one of them is recorded as one event; what the callee does
  to the registers is not modelled.
\<close>

definition call :: "extern_fn \<Rightarrow> machine \<Rightarrow> machine" where
  "call f s = emit (Call f) s"

definition EIC_init_early :: "machine \<Rightarrow> machine option" where
  "EIC_init_early s =
     do {
       s1 \<leftarrow> Some (reg_write GCLK_PCHCTRL4 0x00000042 s);
       s2 \<leftarrow> spin_while_clear GCLK_PCHCTRL4 0x00000042 s1;
       s3 \<leftarrow> Some (reg_write EIC_CTRLA 0x01 s2);
       s4 \<leftarrow> spin_while_set EIC_SYNCBUSY 0x01 s3;
       Some (reg_write EIC_DPRESCALER (push_bit 16 0 OR push_bit 4 0 OR push_bit 0 15) s4)
     }"

definition EIC_init_late :: "machine \<Rightarrow> machine option" where
  "EIC_init_late s =
     do {
       s1 \<leftarrow> Some (reg_set_bits EIC_CTRLA 0x02 s);
       spin_while_set EIC_SYNCBUSY 0x02 s1
     }"

definition EVSYS_init :: "machine \<Rightarrow> machine" where
  "EVSYS_init s = reg_write EVSYS_CTRLA 0x01 s"

definition blink_init :: "machine \<Rightarrow> machine" where
  "blink_init =
     statements
       [reg_set_bits PORT_DIRSET (push_bit 15 1),
        reg_set_bits (PORT_PINCFG 15) (push_bit 1 1)]"

definition PB_init :: "machine \<Rightarrow> machine" where
  "PB_init =
     statements
       [reg_set_bits PORT_DIRCLR (push_bit 23 1),
        reg_set_bits (PORT_PINCFG 23) 0x7,
        reg_set_bits PORT_OUTSET (push_bit 0 1),
        reg_set_bits (PORT_PMUX 11) (push_bit 4 0x0),
        reg_set_bits EIC_DEBOUNCEN (push_bit 2 1),
        reg_clear_bits EIC_CONFIG0 (push_bit 8 0xF),
        reg_set_bits EIC_CONFIG0 (push_bit 8 0xB),
        reg_write EIC_INTENSET 0x00000004]"

definition Emergency_Pins_Init :: "machine \<Rightarrow> machine" where
  "Emergency_Pins_Init =
     statements
       [reg_set_bits (PORT_PINCFG 19) (push_bit 1 1),
        reg_set_bits PORT_DIRSET (push_bit 19 1),
        reg_set_bits PORT_OUTSET (push_bit 19 1),
        reg_set_bits (PORT_PINCFG 18) (push_bit 0 0x7),
        reg_set_bits PORT_DIRSET (push_bit 18 0),
        reg_set_bits PORT_OUTSET (push_bit 18 0),
        reg_set_bits (PORT_PMUX 9) (push_bit 0 0x0)]"

definition NVIC_init :: "machine \<Rightarrow> machine" where
  "NVIC_init =
     statements
       [emit DMB,
        emit Enable_irq,
        emit (NVIC_SetPriority EIC_EXTINT_2_IRQn 3),
        emit (NVIC_SetPriority SysTick_IRQn 3),
        emit (NVIC_EnableIRQ EIC_EXTINT_2_IRQn),
        emit (NVIC_EnableIRQ SysTick_IRQn)]"

definition platform_init :: "machine \<Rightarrow> machine option" where
  "platform_init s =
     do {
       s1 \<leftarrow> Some (call raise_perf_level s);
       s2 \<leftarrow> Some (EVSYS_init s1);
       s3 \<leftarrow> EIC_init_early s2;
       s4 \<leftarrow> Some (call TC0_Init s3);
       s5 \<leftarrow> Some (PB_init s4);
       s6 \<leftarrow> Some (Emergency_Pins_Init s5);
       s7 \<leftarrow> Some (blink_init s6);
       s8 \<leftarrow> Some (call platform_usart_init s7);
       s9 \<leftarrow> EIC_init_late s8;
       s10 \<leftarrow> Some (call platform_systick_init s9);
       Some (NVIC_init s10)
     }"

text \<open>
  The steps of the bring-up, as classes of events. Clock and power: the call of
  \<^verbatim>\<open>raise_perf_level\<close>. Early interrupt-controller configuration: the EVSYS reset, the
  GCLK channel of the EIC, the EIC reset (a write to \<^verbatim>\<open>EIC_CTRLA\<close> without the enable
  bit) and the debounce prescaler. Peripheral configuration: the timer and serial
  initialisers and every access to the PORT registers and to the per-line EIC settings.
  Late EIC enable: the read of \<^verbatim>\<open>EIC_CTRLA\<close> and the write that sets its enable bit.
  Interrupt enable: the barrier, the global enable and the NVIC calls. Reads of
  \<^verbatim>\<open>EIC_SYNCBUSY\<close> belong to both halves of the EIC set-up and are in no class, and
  neither is the SysTick initialiser.
\<close>

fun is_clock :: "event \<Rightarrow> bool" where
  "is_clock (Call raise_perf_level) = True"
| "is_clock e = False"

fun is_eic_early :: "event \<Rightarrow> bool" where
  "is_eic_early (Wr EVSYS_CTRLA v) = True"
| "is_eic_early (Wr GCLK_PCHCTRL4 v) = True"
| "is_eic_early (Rd GCLK_PCHCTRL4) = True"
| "is_eic_early (Wr EIC_CTRLA v) = (v AND 0x02 = 0)"
| "is_eic_early (Wr EIC_DPRESCALER v) = True"
| "is_eic_early e = False"

fun is_periph_reg :: "reg \<Rightarrow> bool" where
  "is_periph_reg PORT_DIRSET = True"
| "is_periph_reg PORT_DIRCLR = True"
| "is_periph_reg PORT_OUTSET = True"
| "is_periph_reg PORT_OUTCLR = True"
| "is_periph_reg (PORT_PINCFG n) = True"
| "is_periph_reg (PORT_PMUX n) = True"
| "is_periph_reg EIC_DEBOUNCEN = True"
| "is_periph_reg EIC_CONFIG0 = True"
| "is_periph_reg EIC_INTENSET = True"
| "is_periph_reg r = False"

fun is_periph :: "event \<Rightarrow> bool" where
  "is_periph (Call TC0_Init) = True"
| "is_periph (Call platform_usart_init) = True"
| "is_periph (Rd r) = is_periph_reg r"
| "is_periph (Wr r v) = is_periph_reg r"
| "is_periph e = False"

fun is_eic_late :: "event \<Rightarrow> bool" where
  "is_eic_late (Rd EIC_CTRLA) = True"
| "is_eic_late (Wr EIC_CTRLA v) = (v AND 0x02 \<noteq> 0)"
| "is_eic_late e = False"

fun is_nvic :: "event \<Rightarrow> bool" where
  "is_nvic DMB = True"
| "is_nvic Enable_irq = True"
| "is_nvic (NVIC_SetPriority i p) = True"
| "is_nvic (NVIC_EnableIRQ i) = True"
| "is_nvic e = False"

text \<open>\<open>precedes P Q t\<close>: in \<open>t\<close>, no \<open>P\<close> event comes after a \<open>Q\<close> event.\<close>

fun precedes :: "('a \<Rightarrow> bool) \<Rightarrow> ('a \<Rightarrow> bool) \<Rightarrow> 'a list \<Rightarrow> bool" where
  "precedes P Q [] = True"
| "precedes P Q (x # xs) = ((Q x \<longrightarrow> \<not> list_ex P xs) \<and> precedes P Q xs)"

text \<open>What \<^verbatim>\<open>NVIC_init\<close> does, in order.\<close>

definition nvic_events :: "event list" where
  "nvic_events = [DMB, Enable_irq, NVIC_SetPriority EIC_EXTINT_2_IRQn 3,
     NVIC_SetPriority SysTick_IRQn 3, NVIC_EnableIRQ EIC_EXTINT_2_IRQn,
     NVIC_EnableIRQ SysTick_IRQn]"

text \<open>A write to the register \<open>r\<close>, whatever the value.\<close>

fun writes :: "reg \<Rightarrow> event \<Rightarrow> bool" where
  "writes r (Wr r' v) = (r' = r)"
| "writes r e = False"

text \<open>
  Every step of the bring-up is in the trace. Clock and power: the call of
  \<^verbatim>\<open>raise_perf_level\<close>. Early interrupt-controller configuration: the EVSYS reset, the
  GCLK channel, the EIC reset and the debounce prescaler. Timer: the call of
  \<^verbatim>\<open>TC0_Init\<close>. Pushbutton: the pin configuration of PA23, the debounce enable, the
  sense configuration and the interrupt enable of line 2. GPIO: the pin configurations
  of PA19, PA18 and PA15 and a direction write. Serial: the call of
  \<^verbatim>\<open>platform_usart_init\<close>. Late EIC enable: the write that sets the enable bit. Then the
  SysTick initialiser, and the whole of \<^verbatim>\<open>NVIC_init\<close> as the end of the trace.
\<close>

definition init_steps :: "event list \<Rightarrow> bool" where
  "init_steps t =
     (Call raise_perf_level \<in> set t
      \<and> Wr EVSYS_CTRLA 0x01 \<in> set t
      \<and> Wr GCLK_PCHCTRL4 0x00000042 \<in> set t
      \<and> Wr EIC_CTRLA 0x01 \<in> set t
      \<and> list_ex (writes EIC_DPRESCALER) t
      \<and> Call TC0_Init \<in> set t
      \<and> list_ex (writes (PORT_PINCFG 23)) t
      \<and> list_ex (writes EIC_DEBOUNCEN) t
      \<and> list_ex (writes EIC_CONFIG0) t
      \<and> Wr EIC_INTENSET 0x00000004 \<in> set t
      \<and> list_ex (writes (PORT_PINCFG 19)) t
      \<and> list_ex (writes (PORT_PINCFG 18)) t
      \<and> list_ex (writes PORT_DIRSET) t
      \<and> list_ex (writes (PORT_PINCFG 15)) t
      \<and> Call platform_usart_init \<in> set t
      \<and> list_ex is_eic_late t
      \<and> Call platform_systick_init \<in> set t
      \<and> drop (length t - length nvic_events) t = nvic_events)"

text \<open>
  The classes of events are in order: the trace opens with the clock step; each class
  is present; every event of a class comes before every event of the next class; and
  every event that is not an interrupt enable comes before every one that is, the last
  event being the enabling of the last interrupt line.
\<close>

definition init_classes_ordered :: "event list \<Rightarrow> bool" where
  "init_classes_ordered t =
     (t \<noteq> [] \<and> hd t = Call raise_perf_level
      \<and> list_ex is_eic_early t \<and> list_ex is_periph t
      \<and> list_ex is_eic_late t \<and> list_ex is_nvic t
      \<and> precedes is_clock (\<lambda>e. \<not> is_clock e) t
      \<and> precedes is_eic_early is_periph t
      \<and> precedes is_periph is_eic_late t
      \<and> precedes is_eic_late is_nvic t
      \<and> precedes (\<lambda>e. \<not> is_nvic e) is_nvic t
      \<and> last t = NVIC_EnableIRQ SysTick_IRQn)"

text \<open>The order of the bring-up, read off a trace: every step is there, and in order.\<close>

definition init_order :: "event list \<Rightarrow> bool" where
  "init_order t = (init_steps t \<and> init_classes_ordered t)"

text \<open>
  The events of \<^verbatim>\<open>EIC_init_early\<close>, with \<open>k1 + 1\<close> polls of the GCLK channel and
  \<open>k2 + 1\<close> polls of the EIC's synchronisation flags.
\<close>

definition eic_early_trace :: "nat \<Rightarrow> nat \<Rightarrow> event list" where
  "eic_early_trace k1 k2 =
     Wr GCLK_PCHCTRL4 0x00000042 # replicate (Suc k1) (Rd GCLK_PCHCTRL4)
     @ Wr EIC_CTRLA 0x01 # replicate (Suc k2) (Rd EIC_SYNCBUSY)
     @ [Wr EIC_DPRESCALER 0xF]"

text \<open>
  The events of the regular initialisation, \<^verbatim>\<open>TC0_Init\<close> to \<^verbatim>\<open>platform_usart_init\<close>,
  from the register values \<open>st\<close> it starts with. Every compound assignment is a read
  and a write of the value read with the bits changed; \<open>dir1\<close>, \<open>dir2\<close>, \<open>dir3\<close> and
  \<open>out1\<close>, \<open>out2\<close> are the direction and output latches after the writes so far.
\<close>

definition peripherals_trace :: "(reg \<Rightarrow> 32 word) \<Rightarrow> event list" where
  "peripherals_trace st =
     (let dir0 = st PORT_DIR;
          out0 = st PORT_OUT;
          dir1 = dir0 AND NOT (dir0 OR push_bit 23 1);
          out1 = out0 OR (out0 OR push_bit 0 1);
          cfg1 = st EIC_CONFIG0 AND NOT (push_bit 8 0xF);
          dir2 = dir1 OR (dir1 OR push_bit 19 1);
          out2 = out1 OR (out1 OR push_bit 19 1);
          dir3 = dir2 OR (dir2 OR push_bit 18 0)
      in [Call TC0_Init,
          Rd PORT_DIRCLR, Wr PORT_DIRCLR (dir0 OR push_bit 23 1),
          Rd (PORT_PINCFG 23), Wr (PORT_PINCFG 23) (st (PORT_PINCFG 23) OR 0x7),
          Rd PORT_OUTSET, Wr PORT_OUTSET (out0 OR push_bit 0 1),
          Rd (PORT_PMUX 11), Wr (PORT_PMUX 11) (st (PORT_PMUX 11) OR push_bit 4 0x0),
          Rd EIC_DEBOUNCEN, Wr EIC_DEBOUNCEN (st EIC_DEBOUNCEN OR push_bit 2 1),
          Rd EIC_CONFIG0, Wr EIC_CONFIG0 cfg1,
          Rd EIC_CONFIG0, Wr EIC_CONFIG0 (cfg1 OR push_bit 8 0xB),
          Wr EIC_INTENSET 0x00000004,
          Rd (PORT_PINCFG 19), Wr (PORT_PINCFG 19) (st (PORT_PINCFG 19) OR push_bit 1 1),
          Rd PORT_DIRSET, Wr PORT_DIRSET (dir1 OR push_bit 19 1),
          Rd PORT_OUTSET, Wr PORT_OUTSET (out1 OR push_bit 19 1),
          Rd (PORT_PINCFG 18), Wr (PORT_PINCFG 18) (st (PORT_PINCFG 18) OR push_bit 0 0x7),
          Rd PORT_DIRSET, Wr PORT_DIRSET (dir2 OR push_bit 18 0),
          Rd PORT_OUTSET, Wr PORT_OUTSET (out2 OR push_bit 18 0),
          Rd (PORT_PMUX 9), Wr (PORT_PMUX 9) (st (PORT_PMUX 9) OR push_bit 0 0x0),
          Rd PORT_DIRSET, Wr PORT_DIRSET (dir3 OR push_bit 15 1),
          Rd (PORT_PINCFG 15), Wr (PORT_PINCFG 15) (st (PORT_PINCFG 15) OR push_bit 1 1),
          Call platform_usart_init])"

text \<open>
  The events of \<^verbatim>\<open>EIC_init_late\<close>, with \<open>ctrla\<close> the value \<^verbatim>\<open>EIC_CTRLA\<close> reads and
  \<open>k3 + 1\<close> polls of the synchronisation flags.
\<close>

definition eic_late_trace :: "32 word \<Rightarrow> nat \<Rightarrow> event list" where
  "eic_late_trace ctrla k3 =
     Rd EIC_CTRLA # Wr EIC_CTRLA (ctrla OR 0x02) # replicate (Suc k3) (Rd EIC_SYNCBUSY)"

text \<open>The whole of what \<^verbatim>\<open>platform_init\<close> does, started in the state \<open>s\<close>.\<close>

definition platform_init_trace :: "nat \<Rightarrow> nat \<Rightarrow> nat \<Rightarrow> machine \<Rightarrow> event list" where
  "platform_init_trace k1 k2 k3 s =
     Call raise_perf_level # Wr EVSYS_CTRLA 0x01 # eic_early_trace k1 k2
     @ peripherals_trace (store s)
     @ eic_late_trace (shd (inputs s EIC_CTRLA)) k3
     @ Call platform_systick_init # nvic_events"

declare spin_while_set.simps [code]

declare spin_while_clear.simps [code]

text \<open>A machine whose GCLK channel reads back enabled at once; every other hardware answer is zero.\<close>

definition init_machine :: machine where
  "init_machine = reset_machine\<lparr>inputs := idle_inputs(GCLK_PCHCTRL4 := sconst 0x42)\<rparr>"

section \<open>Tick arithmetic\<close>

record platform_timespec =
  nr_sec :: "32 word"
  nr_nsec :: "32 word"

text \<open>
  Modelled from the spec: \<^verbatim>\<open>platform_timespec_compare\<close> is declared in
  \<^verbatim>\<open>platform.h\<close> and defined in a file that is not among the sources. The spec: a
  pure numeric comparison of the two fields, most significant first, with results
  \<open>-1\<close>, \<open>0\<close> and \<open>+1\<close>.
\<close>

definition platform_timespec_compare :: "platform_timespec \<Rightarrow> platform_timespec \<Rightarrow> int" where
  "platform_timespec_compare lhs rhs =
     (if nr_sec lhs < nr_sec rhs then - 1
      else if nr_sec rhs < nr_sec lhs then 1
      else if nr_nsec lhs < nr_nsec rhs then - 1
      else if nr_nsec rhs < nr_nsec lhs then 1
      else 0)"

text \<open>
  Modelled from the spec: \<^verbatim>\<open>platform_tick_delta\<close> is declared in \<^verbatim>\<open>platform.h\<close> and
  defined in a file that is not among the sources. The spec: it computes
  \<open>lhs - rhs\<close>, normalising a nanosecond borrow across the second boundary, and when
  \<open>lhs\<close> appears earlier than \<open>rhs\<close> the result is computed as if the counter had rolled
  over once. The counter wraps at its native width, the 32 bits of the seconds field.
\<close>

definition platform_tick_delta :: "platform_timespec \<Rightarrow> platform_timespec \<Rightarrow> platform_timespec" where
  "platform_tick_delta lhs rhs =
     (let rolled = (platform_timespec_compare lhs rhs < 0);
          borrow = (nr_nsec lhs < nr_nsec rhs);
          nsec = uint (nr_nsec lhs) + (if borrow then 1000000000 else 0) - uint (nr_nsec rhs);
          sec = uint (nr_sec lhs) + (if rolled then 2 ^ 32 else 0)
                  - (if borrow then 1 else 0) - uint (nr_sec rhs)
      in \<lparr>nr_sec = word_of_int sec, nr_nsec = word_of_int nsec\<rparr>)"

text \<open>A tick as a number of nanoseconds, and one full period of the counter.\<close>

definition tick_ns :: "platform_timespec \<Rightarrow> int" where
  "tick_ns t = uint (nr_sec t) * 1000000000 + uint (nr_nsec t)"

definition counter_period_ns :: int where
  "counter_period_ns = 2 ^ 32 * 1000000000"

definition tick_valid :: "platform_timespec \<Rightarrow> bool" where
  "tick_valid t = (nr_nsec t \<le> 999999999)"

section \<open>Asynchronous serial transmission\<close>

record platform_usart_tx_bufdesc =
  buf :: "8 word list"
  len :: "16 word"

text \<open>
  Modelled from the spec: the USART component (\<^verbatim>\<open>platform_usart_cdc_tx_async\<close>,
  \<^verbatim>\<open>platform_usart_cdc_tx_abort\<close>, \<^verbatim>\<open>platform_usart_cdc_tx_busy\<close> and the interrupt
  side that completes a transmission) is declared in \<^verbatim>\<open>platform.h\<close> and defined in a
  file that is not among the sources. The spec: the channel holds at most one
  transmission in flight; an enqueue is rejected if a transmission is already in
  progress and otherwise accepted and handed to the hardware; an abort stops any
  transmission in progress and is a no-op when idle; busy is true while a transmission
  is outstanding.
\<close>

record usart_channel =
  tx_active :: "platform_usart_tx_bufdesc list option"

definition platform_usart_cdc_tx_busy :: "usart_channel \<Rightarrow> bool" where
  "platform_usart_cdc_tx_busy ch = (tx_active ch \<noteq> None)"

definition platform_usart_cdc_tx_async ::
  "platform_usart_tx_bufdesc list \<Rightarrow> usart_channel \<Rightarrow> bool \<times> usart_channel" where
  "platform_usart_cdc_tx_async desc ch =
     (if platform_usart_cdc_tx_busy ch then (False, ch)
      else (True, ch\<lparr>tx_active := Some desc\<rparr>))"

definition platform_usart_cdc_tx_abort :: "usart_channel \<Rightarrow> usart_channel" where
  "platform_usart_cdc_tx_abort ch = ch\<lparr>tx_active := None\<rparr>"

definition tx_complete :: "usart_channel \<Rightarrow> usart_channel" where
  "tx_complete ch = ch\<lparr>tx_active := None\<rparr>"

definition hello_desc :: "platform_usart_tx_bufdesc list" where
  "hello_desc = [\<lparr>buf = [0x48, 0x69], len = 2\<rparr>]"

definition idle_channel :: usart_channel where
  "idle_channel = \<lparr>tx_active = None\<rparr>"

section \<open>Properties of the event capture\<close>

lemma handler_mask:
  "pb_press_mask (EIC_EXTINT_2_Handler s) =
     (pb_press_mask s AND NOT PLATFORM_PB_ONBOARD_MASK) OR
     (if shd (inputs s EIC_PINSTATE) AND push_bit 2 1 = 0
      then PLATFORM_PB_ONBOARD_PRESS else PLATFORM_PB_ONBOARD_RELEASE)"
  by (simp add: EIC_EXTINT_2_Handler_def reg_read_def reg_write_def Let_def)

lemma handler_inputs_pinstate:
  "inputs (EIC_EXTINT_2_Handler s) EIC_PINSTATE = stl (inputs s EIC_PINSTATE)"
  by (simp add: EIC_EXTINT_2_Handler_def reg_read_def reg_write_def Let_def)


lemma pb_mask_value: "PLATFORM_PB_ONBOARD_MASK = 3"
  by (simp add: PLATFORM_PB_ONBOARD_MASK_def PLATFORM_PB_ONBOARD_PRESS_def
      PLATFORM_PB_ONBOARD_RELEASE_def)

lemma clear_then_press:
  "(m AND NOT PLATFORM_PB_ONBOARD_MASK OR PLATFORM_PB_ONBOARD_PRESS)
     AND PLATFORM_PB_ONBOARD_MASK = PLATFORM_PB_ONBOARD_PRESS"
  "(m AND NOT PLATFORM_PB_ONBOARD_MASK OR PLATFORM_PB_ONBOARD_PRESS)
     AND NOT PLATFORM_PB_ONBOARD_MASK = m AND NOT PLATFORM_PB_ONBOARD_MASK"
  unfolding pb_mask_value PLATFORM_PB_ONBOARD_PRESS_def
  by (simp_all add: bit.conj_disj_distrib2 and.assoc)

lemma clear_then_release:
  "(m AND NOT PLATFORM_PB_ONBOARD_MASK OR PLATFORM_PB_ONBOARD_RELEASE)
     AND PLATFORM_PB_ONBOARD_MASK = PLATFORM_PB_ONBOARD_RELEASE"
  "(m AND NOT PLATFORM_PB_ONBOARD_MASK OR PLATFORM_PB_ONBOARD_RELEASE)
     AND NOT PLATFORM_PB_ONBOARD_MASK = m AND NOT PLATFORM_PB_ONBOARD_MASK"
  unfolding pb_mask_value PLATFORM_PB_ONBOARD_RELEASE_def
  by (simp_all add: bit.conj_disj_distrib2 and.assoc)

lemma one_bit_is_not_both:
  "PLATFORM_PB_ONBOARD_PRESS \<noteq> PLATFORM_PB_ONBOARD_MASK"
  "PLATFORM_PB_ONBOARD_RELEASE \<noteq> PLATFORM_PB_ONBOARD_MASK"
  "PLATFORM_PB_ONBOARD_RELEASE AND PLATFORM_PB_ONBOARD_PRESS \<noteq> PLATFORM_PB_ONBOARD_PRESS"
  by (simp_all add: pb_mask_value PLATFORM_PB_ONBOARD_PRESS_def
      PLATFORM_PB_ONBOARD_RELEASE_def)

lemma handler_outside_bits:
  "pb_press_mask (EIC_EXTINT_2_Handler s) AND NOT PLATFORM_PB_ONBOARD_MASK =
   pb_press_mask s AND NOT PLATFORM_PB_ONBOARD_MASK"
  by (simp add: handler_mask clear_then_press clear_then_release)

lemma pb_reachable_inside:
  "pb_reachable s \<Longrightarrow> pb_press_mask s AND NOT PLATFORM_PB_ONBOARD_MASK = 0"
proof (induction rule: pb_reachable.induct)
  case (pb_reset s)
  then show ?case by simp
next
  case (pb_irq s)
  then show ?case by (simp add: handler_outside_bits)
next
  case (pb_get s)
  then show ?case by (simp add: platform_pb_get_event_def)
qed

lemma handler_from_inside:
  assumes "pb_press_mask s AND NOT PLATFORM_PB_ONBOARD_MASK = 0"
  shows "pb_press_mask (EIC_EXTINT_2_Handler s) =
     (if shd (inputs s EIC_PINSTATE) AND push_bit 2 1 = 0
      then PLATFORM_PB_ONBOARD_PRESS else PLATFORM_PB_ONBOARD_RELEASE)"
  using assms by (simp add: handler_mask)

lemma reset_machine_reachable: "pb_reachable reset_machine"
  by (rule pb_reset) (simp add: reset_machine_def)

lemma press_release_machine_reachable: "pb_reachable press_release_machine"
  by (rule pb_reset) (simp add: press_release_machine_def reset_machine_def)

text \<open>
  C3. Whatever the mask held before, one run of the edge-interrupt handler leaves
  within the two button bits exactly PRESS when bit 2 of the pin state reads low and
  exactly RELEASE otherwise; so the two bits are never both set after a single run.
  The bits outside PRESS and RELEASE are left as they were.
\<close>

theorem handler_sets_exactly_one:
  "pb_press_mask (EIC_EXTINT_2_Handler s) AND PLATFORM_PB_ONBOARD_MASK =
     (if shd (inputs s EIC_PINSTATE) AND push_bit 2 1 = 0
      then PLATFORM_PB_ONBOARD_PRESS else PLATFORM_PB_ONBOARD_RELEASE)
   \<and> pb_press_mask (EIC_EXTINT_2_Handler s) AND PLATFORM_PB_ONBOARD_MASK
       \<noteq> PLATFORM_PB_ONBOARD_MASK
   \<and> pb_press_mask (EIC_EXTINT_2_Handler s) AND NOT PLATFORM_PB_ONBOARD_MASK =
       pb_press_mask s AND NOT PLATFORM_PB_ONBOARD_MASK"
  by (simp add: handler_mask clear_then_press clear_then_release one_bit_is_not_both)

theorem handler_sets_exactly_one_witness:
  "pb_press_mask (EIC_EXTINT_2_Handler (reset_machine\<lparr>pb_press_mask := 3\<rparr>))
     AND PLATFORM_PB_ONBOARD_MASK = PLATFORM_PB_ONBOARD_PRESS"
  using handler_sets_exactly_one [of "reset_machine\<lparr>pb_press_mask := 3\<rparr>"]
  by (simp add: reset_machine_def idle_inputs_def)

text \<open>
  C4. \<^verbatim>\<open>platform_pb_get_event\<close> returns the stored mask and leaves the stored mask
  empty. After one press event (a handler run with the pin low) it returns PRESS, and
  a second call right after it returns the empty mask.
\<close>

theorem get_event_read_and_clear:
  "fst (platform_pb_get_event s) = pb_press_mask s
   \<and> pb_press_mask (snd (platform_pb_get_event s)) = 0
   \<and> fst (platform_pb_get_event (snd (platform_pb_get_event s))) = 0
   \<and> (pb_reachable s \<and> shd (inputs s EIC_PINSTATE) AND push_bit 2 1 = 0 \<longrightarrow>
        fst (platform_pb_get_event (EIC_EXTINT_2_Handler s)) = PLATFORM_PB_ONBOARD_PRESS
        \<and> fst (platform_pb_get_event
                 (snd (platform_pb_get_event (EIC_EXTINT_2_Handler s)))) = 0)"
  by (simp add: platform_pb_get_event_def handler_from_inside pb_reachable_inside)

theorem get_event_read_and_clear_witness:
  "pb_reachable reset_machine
   \<and> shd (inputs reset_machine EIC_PINSTATE) AND push_bit 2 1 = 0
   \<and> fst (platform_pb_get_event (EIC_EXTINT_2_Handler reset_machine))
       = PLATFORM_PB_ONBOARD_PRESS
   \<and> fst (platform_pb_get_event
            (snd (platform_pb_get_event (EIC_EXTINT_2_Handler reset_machine)))) = 0"
proof -
  have pin: "shd (inputs reset_machine EIC_PINSTATE) AND push_bit 2 1 = 0"
    by (simp add: reset_machine_def idle_inputs_def)
  show ?thesis
    using get_event_read_and_clear [of reset_machine] reset_machine_reachable pin
    by simp
qed

text \<open>
  C9. The stored mask never holds a bit outside PRESS and RELEASE: it is zero at
  reset, the handler and \<^verbatim>\<open>platform_pb_get_event\<close> keep it so, and therefore the
  value \<^verbatim>\<open>platform_pb_get_event\<close> returns has no bit outside the two either.
\<close>

theorem pb_mask_within_onboard_mask:
  "(pb_press_mask s = 0 \<longrightarrow> pb_press_mask s AND NOT PLATFORM_PB_ONBOARD_MASK = 0)
   \<and> (pb_press_mask s AND NOT PLATFORM_PB_ONBOARD_MASK = 0 \<longrightarrow>
        pb_press_mask (EIC_EXTINT_2_Handler s) AND NOT PLATFORM_PB_ONBOARD_MASK = 0
        \<and> pb_press_mask (snd (platform_pb_get_event s))
            AND NOT PLATFORM_PB_ONBOARD_MASK = 0)
   \<and> (pb_reachable s \<longrightarrow>
        pb_press_mask s AND NOT PLATFORM_PB_ONBOARD_MASK = 0
        \<and> fst (platform_pb_get_event s) AND NOT PLATFORM_PB_ONBOARD_MASK = 0)"
  by (simp add: handler_outside_bits pb_reachable_inside platform_pb_get_event_def)

theorem pb_mask_within_onboard_mask_witness:
  "pb_reachable (EIC_EXTINT_2_Handler (EIC_EXTINT_2_Handler press_release_machine))
   \<and> fst (platform_pb_get_event
            (EIC_EXTINT_2_Handler (EIC_EXTINT_2_Handler press_release_machine)))
       AND NOT PLATFORM_PB_ONBOARD_MASK = 0
   \<and> pb_press_mask press_release_machine = 0
   \<and> pb_press_mask (EIC_EXTINT_2_Handler press_release_machine)
       AND NOT PLATFORM_PB_ONBOARD_MASK = 0"
proof -
  have r: "pb_reachable (EIC_EXTINT_2_Handler (EIC_EXTINT_2_Handler press_release_machine))"
    by (intro pb_irq press_release_machine_reachable)
  have z: "pb_press_mask press_release_machine = 0"
    by (simp add: press_release_machine_def reset_machine_def)
  show ?thesis
    using pb_mask_within_onboard_mask
            [of "EIC_EXTINT_2_Handler (EIC_EXTINT_2_Handler press_release_machine)"]
          pb_mask_within_onboard_mask [of press_release_machine] r z
    by simp
qed

text \<open>
  C1, as stated, fails: with the mask empty, a press interrupt followed by a release
  interrupt leaves only RELEASE in the mask, because the second handler run clears the
  PRESS bit the first one set. The read that follows returns RELEASE without PRESS.
\<close>

theorem press_then_release_counterexample:
  "pb_press_mask press_release_machine = 0
   \<and> shd (inputs press_release_machine EIC_PINSTATE) AND push_bit 2 1 = 0
   \<and> shd (stl (inputs press_release_machine EIC_PINSTATE)) AND push_bit 2 1 \<noteq> 0
   \<and> fst (platform_pb_get_event
            (EIC_EXTINT_2_Handler (EIC_EXTINT_2_Handler press_release_machine)))
       = PLATFORM_PB_ONBOARD_RELEASE
   \<and> fst (platform_pb_get_event
            (EIC_EXTINT_2_Handler (EIC_EXTINT_2_Handler press_release_machine)))
       AND PLATFORM_PB_ONBOARD_PRESS \<noteq> PLATFORM_PB_ONBOARD_PRESS"
proof -
  have m0: "pb_press_mask press_release_machine = 0"
    by (simp add: press_release_machine_def reset_machine_def)
  have p1: "shd (inputs press_release_machine EIC_PINSTATE) AND push_bit 2 1 = 0"
    by (simp add: press_release_machine_def reset_machine_def)
  have p2: "shd (stl (inputs press_release_machine EIC_PINSTATE)) AND push_bit 2 1 \<noteq> 0"
    by (simp add: press_release_machine_def reset_machine_def)
  have "pb_press_mask (EIC_EXTINT_2_Handler press_release_machine)
          AND NOT PLATFORM_PB_ONBOARD_MASK = 0"
    using m0 by (simp add: handler_outside_bits)
  then have "pb_press_mask (EIC_EXTINT_2_Handler (EIC_EXTINT_2_Handler press_release_machine))
          = PLATFORM_PB_ONBOARD_RELEASE"
    using p2 by (simp add: handler_from_inside handler_inputs_pinstate)
  then show ?thesis
    using m0 p1 p2 by (simp add: platform_pb_get_event_def one_bit_is_not_both)
qed

text \<open>
  C1, amended. From any reachable state, a press interrupt (pin low) followed by a
  release interrupt (pin high) before any read makes the next
  \<^verbatim>\<open>platform_pb_get_event\<close> return exactly RELEASE: the mask holds the last edge
  only. A second read with no event in between returns the empty mask.
\<close>

theorem press_then_release_yields_release:
  assumes "pb_reachable s"
    and "shd (inputs s EIC_PINSTATE) AND push_bit 2 1 = 0"
    and "shd (stl (inputs s EIC_PINSTATE)) AND push_bit 2 1 \<noteq> 0"
  shows "fst (platform_pb_get_event (EIC_EXTINT_2_Handler (EIC_EXTINT_2_Handler s)))
           = PLATFORM_PB_ONBOARD_RELEASE
         \<and> fst (platform_pb_get_event (snd (platform_pb_get_event
                  (EIC_EXTINT_2_Handler (EIC_EXTINT_2_Handler s))))) = 0"
proof -
  have "pb_reachable (EIC_EXTINT_2_Handler s)"
    using assms(1) by (rule pb_irq)
  then have "pb_press_mask (EIC_EXTINT_2_Handler s) AND NOT PLATFORM_PB_ONBOARD_MASK = 0"
    by (rule pb_reachable_inside)
  then have "pb_press_mask (EIC_EXTINT_2_Handler (EIC_EXTINT_2_Handler s))
               = PLATFORM_PB_ONBOARD_RELEASE"
    using assms(3) by (simp add: handler_from_inside handler_inputs_pinstate)
  then show ?thesis
    by (simp add: platform_pb_get_event_def)
qed

theorem press_then_release_yields_release_witness:
  "fst (platform_pb_get_event
         (EIC_EXTINT_2_Handler (EIC_EXTINT_2_Handler press_release_machine)))
     = PLATFORM_PB_ONBOARD_RELEASE
   \<and> fst (platform_pb_get_event (snd (platform_pb_get_event
            (EIC_EXTINT_2_Handler (EIC_EXTINT_2_Handler press_release_machine))))) = 0"
proof -
  have p1: "shd (inputs press_release_machine EIC_PINSTATE) AND push_bit 2 1 = 0"
    by (simp add: press_release_machine_def reset_machine_def)
  have p2: "shd (stl (inputs press_release_machine EIC_PINSTATE)) AND push_bit 2 1 \<noteq> 0"
    by (simp add: press_release_machine_def reset_machine_def)
  show ?thesis
    by (rule press_then_release_yields_release
              [OF press_release_machine_reachable p1 p2])
qed

section \<open>Properties of the blink sequencer\<close>

lemma reg_read_hw:
  "hw_driven r \<Longrightarrow> reg_read r s = (shd (inputs s r), polled r 1 s)"
  by (simp add: reg_read_def polled_def)

lemma polled_polled: "polled r a (polled r b s) = polled r (b + a) s"
  by (simp add: polled_def replicate_add)

lemma inputs_polled: "inputs (polled r n s) r = sdrop n (inputs s r)"
  by (simp add: polled_def)

lemma spin_while_set_returns:
  assumes "hw_driven r" and "inputs s r !! n AND m = 0"
  shows "\<exists>k\<le>n. spin_while_set r m s = Some (polled r (Suc k) s)"
  using assms(2)
proof (induction n arbitrary: s)
  case 0
  then have "spin_while_set r m s = Some (polled r 1 s)"
    using assms(1) by (subst spin_while_set.simps) (simp add: reg_read_hw)
  then show ?case by simp
next
  case (Suc n)
  show ?case
  proof (cases "shd (inputs s r) AND m = 0")
    case True
    then have "spin_while_set r m s = Some (polled r 1 s)"
      using assms(1) by (subst spin_while_set.simps) (simp add: reg_read_hw)
    then show ?thesis by auto
  next
    case False
    then have step: "spin_while_set r m s = spin_while_set r m (polled r 1 s)"
      using assms(1) by (subst spin_while_set.simps) (simp add: reg_read_hw)
    have "inputs (polled r 1 s) r !! n AND m = 0"
      using Suc.prems by (simp add: inputs_polled)
    from Suc.IH [OF this] obtain k where
      "k \<le> n" "spin_while_set r m (polled r 1 s) = Some (polled r (Suc k) (polled r 1 s))"
      by blast
    then have "Suc k \<le> Suc n \<and> spin_while_set r m s = Some (polled r (Suc (Suc k)) s)"
      using step by (simp add: polled_polled)
    then show ?thesis by blast
  qed
qed

lemma spin_while_clear_returns:
  assumes "hw_driven r" and "inputs s r !! n AND m \<noteq> 0"
  shows "\<exists>k\<le>n. spin_while_clear r m s = Some (polled r (Suc k) s)"
  using assms(2)
proof (induction n arbitrary: s)
  case 0
  then have "spin_while_clear r m s = Some (polled r 1 s)"
    using assms(1) by (subst spin_while_clear.simps) (simp add: reg_read_hw)
  then show ?case by simp
next
  case (Suc n)
  show ?case
  proof (cases "shd (inputs s r) AND m = 0")
    case False
    then have "spin_while_clear r m s = Some (polled r 1 s)"
      using assms(1) by (subst spin_while_clear.simps) (simp add: reg_read_hw)
    then show ?thesis by auto
  next
    case True
    then have step: "spin_while_clear r m s = spin_while_clear r m (polled r 1 s)"
      using assms(1) by (subst spin_while_clear.simps) (simp add: reg_read_hw)
    have "inputs (polled r 1 s) r !! n AND m \<noteq> 0"
      using Suc.prems by (simp add: inputs_polled)
    from Suc.IH [OF this] obtain k where
      "k \<le> n" "spin_while_clear r m (polled r 1 s) = Some (polled r (Suc k) (polled r 1 s))"
      by blast
    then have "Suc k \<le> Suc n \<and> spin_while_clear r m s = Some (polled r (Suc (Suc k)) s)"
      using step by (simp add: polled_polled)
    then show ?thesis by blast
  qed
qed

lemma settles_sdrop: "settles m \<sigma> \<Longrightarrow> settles m (sdrop j \<sigma>)"
  unfolding settles_def
proof -
  assume "\<exists>n. \<forall>k\<ge>n. \<sigma> !! k AND m = 0"
  then obtain n where n: "\<forall>k\<ge>n. \<sigma> !! k AND m = 0" ..
  have "\<forall>k\<ge>n. sdrop j \<sigma> !! k AND m = 0"
    using n by (simp add: sdrop_snth)
  then show "\<exists>n. \<forall>k\<ge>n. sdrop j \<sigma> !! k AND m = 0" ..
qed

lemma settles_ready: "settles m \<sigma> \<Longrightarrow> \<exists>n. \<sigma> !! n AND m = 0"
  unfolding settles_def by blast

lemma settles_sconst: "settles m (sconst 0)"
  unfolding settles_def by simp

lemma spin_settles:
  assumes "hw_driven r" "settles m (inputs s r)"
  shows "\<exists>k. spin_while_set r m s = Some (polled r (Suc k) s)"
  using settles_ready [OF assms(2)] spin_while_set_returns [OF assms(1)] by blast


lemma round_half_even_of_int: "round_half_even (of_int i) = i"
  by (simp add: round_half_even_def)

lemma ilog2_of_int:
  assumes "0 < i"
  shows "ilog2 (of_int i) = bitlen i - 1"
proof -
  have b: "2 ^ nat (bitlen i - 1) \<le> i" using bitlen_bounds [OF assms] by simp
  have nn: "0 \<le> bitlen i - 1" using assms bitlen_eq_zero_iff [of i] bitlen_nonneg [of i] by linarith
  have "(of_int (2 ^ nat (bitlen i - 1)) :: rat) \<le> of_int i"
    using b by (simp only: of_int_le_iff)
  then have "\<not> (of_int i :: rat) < pow2 (bitlen i - 1)"
    using nn by (simp add: pow2_def)
  moreover have "bitlen 1 = 1" by (simp add: bitlen_alt_def)
  ultimately show ?thesis
    by (simp add: ilog2_def Let_def)
qed

lemma bitlen_le_16:
  assumes "0 < i" "i < 65536"
  shows "bitlen i \<le> 16"
proof (rule ccontr)
  assume "\<not> bitlen i \<le> 16"
  then have "16 \<le> nat (bitlen i - 1)" by linarith
  then have "(2::int) ^ 16 \<le> 2 ^ nat (bitlen i - 1)"
    by (rule power_increasing) simp
  with bitlen_bounds [OF assms(1)] assms(2) show False by simp
qed

lemma round_double_of_int:
  assumes "0 \<le> i" "i < 65536"
  shows "round_double (of_int i) = of_int i"
proof (cases "i = 0")
  case True
  then show ?thesis by (simp add: round_double_def)
next
  case False
  with assms have pos: "0 < i" by simp
  define e where "e = bitlen i - 1"
  have e: "0 \<le> e" "e \<le> 15"
    using pos bitlen_le_16 [OF pos assms(2)] bitlen_eq_zero_iff [of i] bitlen_nonneg [of i]
    by (simp_all add: e_def) 
  have il: "ilog2 \<bar>of_int i\<bar> = e"
    using pos ilog2_of_int [OF pos] by (simp add: e_def)
  have u: "pow2 (e - 52) = 1 / 2 ^ nat (52 - e)"
    using e by (simp add: pow2_def)
  have "(of_int i :: rat) / pow2 (e - 52) = of_int (i * 2 ^ nat (52 - e))"
    by (simp add: u)
  then have "round_half_even (of_int i / pow2 (e - 52)) = i * 2 ^ nat (52 - e)"
    by (simp only: round_half_even_of_int)
  then show ?thesis
    using False e by (simp add: round_double_def il Let_def u)
qed

lemma uint16_range: "0 \<le> uint (w :: 16 word) \<and> uint w < 65536"
  using uint_lt2p [of w] by simp

lemma double_of_sample: "double_of_int (uint (w :: 16 word)) = of_int (uint w)"
  unfolding double_of_int_def
  by (rule round_double_of_int) (simp_all only: uint16_range)

lemma double_of_count_sample: "double_of_int (count_sample n s) = of_int (count_sample n s)"
  by (simp add: count_sample_def double_of_sample)

lemma read_count_returns:
  assumes "settles (push_bit 2 1) (inputs s TC_SYNCBUSY)"
  shows "\<exists>k. read_count s =
           Some (count_sample 0 s,
                 polled TC_COUNT 1 (polled TC_SYNCBUSY (Suc k)
                   (reg_write TC_CTRLBSET (push_bit 5 4) s)))"
proof -
  let ?s1 = "reg_write TC_CTRLBSET (push_bit 5 4) s"
  have "settles (push_bit 2 1) (inputs ?s1 TC_SYNCBUSY)"
    using assms by (simp add: reg_write_def)
  then obtain k where k: "spin_while_set TC_SYNCBUSY (push_bit 2 1) ?s1
      = Some (polled TC_SYNCBUSY (Suc k) ?s1)"
    using spin_settles [of TC_SYNCBUSY "push_bit 2 1" ?s1] by auto
  have "shd (inputs (polled TC_SYNCBUSY (Suc k) ?s1) TC_COUNT) = inputs s TC_COUNT !! 0"
    by (simp add: polled_def reg_write_def)
  then have "read_count s = Some (count_sample 0 s,
       polled TC_COUNT 1 (polled TC_SYNCBUSY (Suc k) ?s1))"
    using k by (simp add: read_count_def reg_read_hw count_sample_def)
  then show ?thesis ..
qed

lemma timed_blink_returns:
  fixes cc :: "32 word" and d :: rat and s :: machine
  assumes s6: "settles (push_bit 6 1) (inputs s TC_SYNCBUSY)"
    and s2: "settles (push_bit 2 1) (inputs s TC_SYNCBUSY)"
  defines "T \<equiv> double_mult (double_of_int (uint (ucast cc :: 16 word))) d"
  defines "c_lo \<equiv> of_int (count_sample 0 s) < T"
  defines "c_hi \<equiv> T < of_int (count_sample 1 s)"
  shows "\<exists>s' k1 k2 k3. timed_blink cc d s = Some s'
    \<and> store s' PORT_OUT =
        (if c_hi then (if c_lo then store s PORT_OUT AND NOT (push_bit 15 1)
                        else store s PORT_OUT) OR push_bit 15 1
         else if c_lo then store s PORT_OUT AND NOT (push_bit 15 1)
         else store s PORT_OUT)
    \<and> trace s' = trace s
        @ Wr TC_CC0 cc # replicate (Suc k1) (Rd TC_SYNCBUSY)
        @ Wr TC_CTRLBSET (push_bit 5 4) # replicate (Suc k2) (Rd TC_SYNCBUSY)
        @ [Rd TC_COUNT, Rd TC_CC0]
        @ (if c_lo then [Wr PORT_OUTCLR (push_bit 15 1)] else [])
        @ Wr TC_CTRLBSET (push_bit 5 4) # replicate (Suc k3) (Rd TC_SYNCBUSY)
        @ [Rd TC_COUNT, Rd TC_CC0]
        @ (if c_hi then [Wr PORT_OUTSET (push_bit 15 1)] else [])
    \<and> pb_press_mask s' = pb_press_mask s
    \<and> currentSetting s' = currentSetting s"
proof -
  define a1 where "a1 = reg_write TC_CC0 cc s"
  have "settles (push_bit 6 1) (inputs a1 TC_SYNCBUSY)"
    using s6 by (simp add: a1_def reg_write_def)
  then obtain k1 where k1: "spin_while_set TC_SYNCBUSY (push_bit 6 1) a1
      = Some (polled TC_SYNCBUSY (Suc k1) a1)"
    using spin_settles [of TC_SYNCBUSY "push_bit 6 1" a1] by auto
  define a2 where "a2 = polled TC_SYNCBUSY (Suc k1) a1"
  have in2: "inputs a2 TC_SYNCBUSY = sdrop (Suc k1) (inputs s TC_SYNCBUSY)"
    "inputs a2 TC_COUNT = inputs s TC_COUNT"
    by (simp_all add: a2_def a1_def polled_def reg_write_def)
  have "settles (push_bit 2 1) (inputs a2 TC_SYNCBUSY)"
    unfolding in2 using s2 by (rule settles_sdrop)
  from read_count_returns [OF this] obtain k2 where k2: "read_count a2 =
      Some (count_sample 0 a2, polled TC_COUNT 1 (polled TC_SYNCBUSY (Suc k2)
             (reg_write TC_CTRLBSET (push_bit 5 4) a2)))" ..
  define a3 where "a3 = polled TC_COUNT 1 (polled TC_SYNCBUSY (Suc k2)
             (reg_write TC_CTRLBSET (push_bit 5 4) a2))"
  have c1: "count_sample 0 a2 = count_sample 0 s"
    by (simp add: count_sample_def in2)
  have cc3: "cc0_times d a3 = (T, emit (Rd TC_CC0) a3)"
    by (simp add: cc0_times_def reg_read_def emit_def a3_def a2_def a1_def polled_def
        reg_write_def T_def)
  define a5 where "a5 = (if c_lo then reg_write PORT_OUTCLR (push_bit 15 1)
      (emit (Rd TC_CC0) a3) else emit (Rd TC_CC0) a3)"
  have in5: "inputs a5 TC_SYNCBUSY = sdrop (Suc k2) (sdrop (Suc k1) (inputs s TC_SYNCBUSY))"
    "inputs a5 TC_COUNT = stl (inputs s TC_COUNT)"
    by (simp_all add: a5_def a3_def emit_def polled_def reg_write_def in2 del: sdrop_add)
  have "settles (push_bit 2 1) (inputs a5 TC_SYNCBUSY)"
    unfolding in5 using s2 by (intro settles_sdrop)
  from read_count_returns [OF this] obtain k3 where k3: "read_count a5 =
      Some (count_sample 0 a5, polled TC_COUNT 1 (polled TC_SYNCBUSY (Suc k3)
             (reg_write TC_CTRLBSET (push_bit 5 4) a5)))" ..
  define a6 where "a6 = polled TC_COUNT 1 (polled TC_SYNCBUSY (Suc k3)
             (reg_write TC_CTRLBSET (push_bit 5 4) a5))"
  have c2: "count_sample 0 a5 = count_sample 1 s"
    by (simp add: count_sample_def in5)
  have cc6: "cc0_times d a6 = (T, emit (Rd TC_CC0) a6)"
    by (simp add: cc0_times_def reg_read_def emit_def a6_def a5_def a3_def a2_def a1_def
        polled_def reg_write_def T_def)
  define a8 where "a8 = (if c_hi then reg_write PORT_OUTSET (push_bit 15 1)
      (emit (Rd TC_CC0) a6) else emit (Rd TC_CC0) a6)"
  have run: "timed_blink cc d s = Some a8"
    unfolding timed_blink_def
    by (simp only: Option.bind.bind_lunit k1 k2 k3 cc3 cc6 c1 c2 double_of_count_sample
        split_conv flip: a1_def a2_def a3_def a5_def a6_def a8_def c_lo_def c_hi_def)
  have out: "store a8 PORT_OUT =
        (if c_hi then (if c_lo then store s PORT_OUT AND NOT (push_bit 15 1)
                        else store s PORT_OUT) OR push_bit 15 1
         else if c_lo then store s PORT_OUT AND NOT (push_bit 15 1)
         else store s PORT_OUT)"
    by (simp add: a8_def a6_def a5_def a3_def a2_def a1_def emit_def polled_def reg_write_def)
  have tr: "trace a8 = trace s
        @ Wr TC_CC0 cc # replicate (Suc k1) (Rd TC_SYNCBUSY)
        @ Wr TC_CTRLBSET (push_bit 5 4) # replicate (Suc k2) (Rd TC_SYNCBUSY)
        @ [Rd TC_COUNT, Rd TC_CC0]
        @ (if c_lo then [Wr PORT_OUTCLR (push_bit 15 1)] else [])
        @ Wr TC_CTRLBSET (push_bit 5 4) # replicate (Suc k3) (Rd TC_SYNCBUSY)
        @ [Rd TC_COUNT, Rd TC_CC0]
        @ (if c_hi then [Wr PORT_OUTSET (push_bit 15 1)] else [])"
    by (simp add: a8_def a6_def a5_def a3_def a2_def a1_def emit_def polled_def reg_write_def)
  have rest: "pb_press_mask a8 = pb_press_mask s" "currentSetting a8 = currentSetting s"
    by (simp_all add: a8_def a6_def a5_def a3_def a2_def a1_def emit_def polled_def reg_write_def)
  show ?thesis
    using run out tr rest by blast
qed

lemma code_threshold_values:
  "code_threshold SLOW = 5798329544658125 / 274877906944"
  "code_threshold MEDIUM = 2577035353181389 / 274877906944"
  "code_threshold FAST = 3516"
  by code_simp+

lemma between_ints:
  fixes T :: rat
  assumes "of_int k < T" and "T < of_int (k + 1)"
  shows "(of_int c < T) = (c \<le> k)" and "(T < of_int c) = (k + 1 \<le> c)"
    and "(of_int c = T) = False"
proof -
  have lo: "c \<le> k \<Longrightarrow> of_int c < T"
  proof -
    assume "c \<le> k"
    then have "(of_int c :: rat) \<le> of_int k" by (simp only: of_int_le_iff)
    with assms(1) show "of_int c < T" by simp
  qed
  have hi: "k + 1 \<le> c \<Longrightarrow> T < of_int c"
  proof -
    assume "k + 1 \<le> c"
    then have "(of_int (k + 1) :: rat) \<le> of_int c" by (simp only: of_int_le_iff)
    with assms(2) show "T < of_int c" by simp
  qed
  have split: "c \<le> k \<or> k + 1 \<le> c" by arith
  show "(of_int c < T) = (c \<le> k)" using lo hi split by fastforce
  show "(T < of_int c) = (k + 1 \<le> c)" using lo hi split by fastforce
  show "(of_int c = T) = False" using lo hi split by fastforce
qed

lemma slow_bounds:
  "of_int 21094 < code_threshold SLOW" "code_threshold SLOW < of_int (21094 + 1)"
  "of_int 21094 < of_int (spec_period SLOW) * spec_duty SLOW"
  "of_int (spec_period SLOW) * spec_duty SLOW < of_int (21094 + 1)"
  by (simp_all add: code_threshold_values del: code_threshold.simps)

lemma medium_bounds:
  "of_int 9375 < code_threshold MEDIUM" "code_threshold MEDIUM < of_int (9375 + 1)"
  "of_int 9375 < of_int (spec_period MEDIUM) * spec_duty MEDIUM"
  "of_int (spec_period MEDIUM) * spec_duty MEDIUM < of_int (9375 + 1)"
  by (simp_all add: code_threshold_values del: code_threshold.simps)

lemma fast_exact:
  "code_threshold FAST = of_int (spec_period FAST) * spec_duty FAST"
  by (simp add: code_threshold_values del: code_threshold.simps)

lemma threshold_agrees:
  assumes "timed m"
  shows "(of_int c < code_threshold m) = (of_int c < of_int (spec_period m) * spec_duty m)"
    and "(code_threshold m < of_int c) = (of_int (spec_period m) * spec_duty m < of_int c)"
    and "(of_int c = code_threshold m) = (of_int c = of_int (spec_period m) * spec_duty m)"
proof -
  have "(of_int c < code_threshold m) = (of_int c < of_int (spec_period m) * spec_duty m)
      \<and> (code_threshold m < of_int c) = (of_int (spec_period m) * spec_duty m < of_int c)
      \<and> (of_int c = code_threshold m) = (of_int c = of_int (spec_period m) * spec_duty m)"
  proof (cases m)
    case SLOW
    show ?thesis unfolding SLOW
      by (simp only: between_ints [OF slow_bounds(1,2)] between_ints [OF slow_bounds(3,4)])
  next
    case MEDIUM
    show ?thesis unfolding MEDIUM
      by (simp only: between_ints [OF medium_bounds(1,2)] between_ints [OF medium_bounds(3,4)])
  next
    case FAST
    show ?thesis unfolding FAST by (simp only: fast_exact)
  qed (use assms in simp_all)
  then show "(of_int c < code_threshold m) = (of_int c < of_int (spec_period m) * spec_duty m)"
    and "(code_threshold m < of_int c) = (of_int (spec_period m) * spec_duty m < of_int c)"
    and "(of_int c = code_threshold m) = (of_int c = of_int (spec_period m) * spec_duty m)"
    by simp_all
qed

lemma led_bit:
  fixes x :: "32 word"
  shows "bit (x OR push_bit 15 1) 15" and "\<not> bit (x AND NOT (push_bit 15 1)) 15"
  by (simp_all add: bit_simps)

lemma new_events_append: "trace s' = trace s @ t \<Longrightarrow> new_events s s' = t"
  by (simp add: new_events_def)

lemma compare_values:
  "uint (ucast (23438 :: 32 word) :: 16 word) = 23438"
  "uint (ucast (11719 :: 32 word) :: 16 word) = 11719"
  "uint (ucast (7032 :: 32 word) :: 16 word) = 7032"
  by simp_all

lemma blink_modify_timed:
  fixes s :: machine
  assumes tm: "timed (currentSetting s)"
    and s6: "settles (push_bit 6 1) (inputs s TC_SYNCBUSY)"
    and s2: "settles (push_bit 2 1) (inputs s TC_SYNCBUSY)"
  defines "T \<equiv> code_threshold (currentSetting s)"
  defines "c_lo \<equiv> of_int (count_sample 0 s) < T"
  defines "c_hi \<equiv> T < of_int (count_sample 1 s)"
  shows "\<exists>s'. platform_blink_modify s = Some s'
    \<and> store s' PORT_OUT =
        (if c_hi then (if c_lo then store s PORT_OUT AND NOT (push_bit 15 1)
                        else store s PORT_OUT) OR push_bit 15 1
         else if c_lo then store s PORT_OUT AND NOT (push_bit 15 1)
         else store s PORT_OUT)
    \<and> filter is_led_write (new_events s s') =
        (if c_lo then [Wr PORT_OUTCLR (push_bit 15 1)] else [])
        @ (if c_hi then [Wr PORT_OUTSET (push_bit 15 1)] else [])
    \<and> filter (\<lambda>e. e = Rd TC_COUNT) (new_events s s') = [Rd TC_COUNT, Rd TC_COUNT]"
proof -
  obtain cc d where run: "platform_blink_modify s = timed_blink cc d s"
    and thr: "double_mult (double_of_int (uint (ucast cc :: 16 word))) d = T"
    using tm unfolding T_def
    by (cases "currentSetting s") (simp_all add: platform_blink_modify_def compare_values)
  from timed_blink_returns [OF s6 s2, of cc d] obtain s' k1 k2 k3 where
    r: "timed_blink cc d s = Some s'"
    and out: "store s' PORT_OUT =
        (if c_hi then (if c_lo then store s PORT_OUT AND NOT (push_bit 15 1)
                        else store s PORT_OUT) OR push_bit 15 1
         else if c_lo then store s PORT_OUT AND NOT (push_bit 15 1)
         else store s PORT_OUT)"
    and tr: "trace s' = trace s
        @ (Wr TC_CC0 cc # replicate (Suc k1) (Rd TC_SYNCBUSY)
        @ Wr TC_CTRLBSET (push_bit 5 4) # replicate (Suc k2) (Rd TC_SYNCBUSY)
        @ [Rd TC_COUNT, Rd TC_CC0]
        @ (if c_lo then [Wr PORT_OUTCLR (push_bit 15 1)] else [])
        @ Wr TC_CTRLBSET (push_bit 5 4) # replicate (Suc k3) (Rd TC_SYNCBUSY)
        @ [Rd TC_COUNT, Rd TC_CC0]
        @ (if c_hi then [Wr PORT_OUTSET (push_bit 15 1)] else []))"
    unfolding thr c_lo_def c_hi_def by blast
  note ne = new_events_append [OF tr]
  have f1: "filter is_led_write (new_events s s') =
        (if c_lo then [Wr PORT_OUTCLR (push_bit 15 1)] else [])
        @ (if c_hi then [Wr PORT_OUTSET (push_bit 15 1)] else [])"
    unfolding ne by simp
  have f2: "filter (\<lambda>e. e = Rd TC_COUNT) (new_events s s') = [Rd TC_COUNT, Rd TC_COUNT]"
    unfolding ne by simp
  show ?thesis
    using run r out f1 f2 by simp
qed

lemma blink_machine_simps:
  "currentSetting (blink_machine m out c) = m"
  "store (blink_machine m out c) PORT_OUT = out"
  "inputs (blink_machine m out c) TC_SYNCBUSY = sconst 0"
  "inputs (blink_machine m out c) TC_COUNT = sconst c"
  by (simp_all add: blink_machine_def reset_machine_def idle_inputs_def)

lemma blink_machine_settles: "settles b (inputs (blink_machine m out c) TC_SYNCBUSY)"
  by (simp only: blink_machine_simps settles_sconst)

lemma blink_machine_sample:
  "count_sample n (blink_machine m out c) = uint (ucast c :: 16 word)"
  by (simp add: count_sample_def blink_machine_simps)

lemma blink_modify_at_threshold:
  assumes "timed (currentSetting s)"
    and "settles (push_bit 6 1) (inputs s TC_SYNCBUSY)"
    and "settles (push_bit 2 1) (inputs s TC_SYNCBUSY)"
    and "of_int (count_sample 0 s) = code_threshold (currentSetting s)"
    and "of_int (count_sample 1 s) = code_threshold (currentSetting s)"
  shows "\<exists>s'. platform_blink_modify s = Some s'
     \<and> filter is_led_write (new_events s s') = []
     \<and> store s' PORT_OUT = store s PORT_OUT
     \<and> led_on s' = led_on s"
proof -
  from blink_modify_timed [OF assms(1-3)] obtain s' where
    "platform_blink_modify s = Some s'"
    "filter is_led_write (new_events s s') = []"
    "store s' PORT_OUT = store s PORT_OUT"
    unfolding assms(4,5) by auto
  then show ?thesis by (auto simp add: led_on_def)
qed

lemma led_after_write:
  "\<not> led_on (reg_write PORT_OUTCLR (push_bit 15 1) s)"
  "led_on (reg_write PORT_OUTSET (push_bit 15 1) s)"
proof -
  have "store (reg_write PORT_OUTCLR v s) PORT_OUT = store s PORT_OUT AND NOT v" for v
    by (simp add: reg_write_def)
  then show "\<not> led_on (reg_write PORT_OUTCLR (push_bit 15 1) s)"
    unfolding led_on_def by (simp only: led_bit not_False_eq_True)
  have "store (reg_write PORT_OUTSET v s) PORT_OUT = store s PORT_OUT OR v" for v
    by (simp add: reg_write_def)
  then show "led_on (reg_write PORT_OUTSET (push_bit 15 1) s)"
    unfolding led_on_def by (simp only: led_bit)
qed

lemma reg_write_frame:
  "new_events s (reg_write r v s) = [Wr r v]" "inputs (reg_write r v s) = inputs s"
  by (simp_all add: reg_write_def new_events_def)

text \<open>
  C2, as stated, fails at the boundary: in FAST mode the threshold is exactly 3516, and
  with the LED lit and both counter samples equal to 3516 the call writes nothing, so
  the LED stays lit although the counter value is not above the threshold.
\<close>

theorem blink_modify_boundary_counterexample:
  "currentSetting (blink_machine FAST (push_bit 15 1) 3516) = FAST
   \<and> count_sample 0 (blink_machine FAST (push_bit 15 1) 3516) = 3516
   \<and> count_sample 1 (blink_machine FAST (push_bit 15 1) 3516) = 3516
   \<and> \<not> (of_int (spec_period FAST) * spec_duty FAST < (3516 :: rat))
   \<and> map_option led_on (platform_blink_modify (blink_machine FAST (push_bit 15 1) 3516))
       = Some True"
proof -
  let ?m = "blink_machine FAST (push_bit 15 1) 3516"
  have t: "timed (currentSetting ?m)" by (simp add: blink_machine_simps)
  have n: "count_sample n ?m = 3516" for n by (simp add: blink_machine_sample)
  have c: "of_int (count_sample n ?m) = code_threshold (currentSetting ?m)" for n
    by (simp add: blink_machine_sample blink_machine_simps(1) code_threshold_values(3)
        del: code_threshold.simps)
  have l: "led_on ?m" by (simp add: led_on_def blink_machine_simps)
  from blink_modify_at_threshold [OF t blink_machine_settles blink_machine_settles c c] l
  have "map_option led_on (platform_blink_modify ?m) = Some True" by auto
  with n [of 0] n [of 1] show ?thesis by (simp add: blink_machine_simps)
qed

text \<open>
  C2, amended. In a timed mode, once the hardware releases the synchronisation waits,
  \<^verbatim>\<open>platform_blink_modify\<close> returns, having read the counter twice; when both
  samples have the value \<open>c\<close>, the LED is lit if \<open>c\<close> is above period times duty, dark
  if \<open>c\<close> is below it, and unchanged if \<open>c\<close> is equal to it. The comparison against
  the double the code computes agrees with the comparison against the exact product for
  every \<open>c\<close>. In SLOW mode a counter value of 20000 gives a dark LED and 22000 a lit
  one.
\<close>

theorem blink_modify_threshold:
  assumes "timed (currentSetting s)"
    and "settles (push_bit 6 1) (inputs s TC_SYNCBUSY)"
    and "settles (push_bit 2 1) (inputs s TC_SYNCBUSY)"
    and "count_sample 0 s = c" and "count_sample 1 s = c"
  shows "\<exists>s'. platform_blink_modify s = Some s'
     \<and> filter (\<lambda>e. e = Rd TC_COUNT) (new_events s s') = [Rd TC_COUNT, Rd TC_COUNT]
     \<and> (of_int (spec_period (currentSetting s)) * spec_duty (currentSetting s) < of_int c
          \<longrightarrow> led_on s')
     \<and> (of_int c < of_int (spec_period (currentSetting s)) * spec_duty (currentSetting s)
          \<longrightarrow> \<not> led_on s')
     \<and> (of_int c = of_int (spec_period (currentSetting s)) * spec_duty (currentSetting s)
          \<longrightarrow> led_on s' = led_on s)"
proof -
  from blink_modify_timed [OF assms(1-3)] obtain s' where
    r: "platform_blink_modify s = Some s'"
    and rd: "filter (\<lambda>e. e = Rd TC_COUNT) (new_events s s') = [Rd TC_COUNT, Rd TC_COUNT]"
    and out: "store s' PORT_OUT =
        (if code_threshold (currentSetting s) < of_int c
         then (if of_int c < code_threshold (currentSetting s)
               then store s PORT_OUT AND NOT (push_bit 15 1)
               else store s PORT_OUT) OR push_bit 15 1
         else if of_int c < code_threshold (currentSetting s)
              then store s PORT_OUT AND NOT (push_bit 15 1)
         else store s PORT_OUT)"
    unfolding assms(4,5) by blast
  have "led_on s' = (if code_threshold (currentSetting s) < of_int c then True
      else if of_int c < code_threshold (currentSetting s) then False else led_on s)"
    unfolding led_on_def out by (simp only: led_bit if_distrib [of "\<lambda>x. bit x 15"] split: if_split)
  then have "led_on s' =
      (if of_int (spec_period (currentSetting s)) * spec_duty (currentSetting s) < of_int c
       then True
       else if of_int c < of_int (spec_period (currentSetting s)) * spec_duty (currentSetting s)
       then False else led_on s)"
    by (simp only: threshold_agrees [OF assms(1)])
  with r rd show ?thesis by auto
qed

theorem blink_modify_threshold_witness:
  "map_option led_on (platform_blink_modify (blink_machine SLOW (push_bit 15 1) 20000))
     = Some False
   \<and> map_option led_on (platform_blink_modify (blink_machine SLOW 0 22000)) = Some True"
proof -
  have a: "timed (currentSetting (blink_machine SLOW out c))" for out c
    by (simp add: blink_machine_simps)
  have c20: "count_sample n (blink_machine SLOW (push_bit 15 1) 20000) = 20000" for n
    by (simp add: blink_machine_sample)
  have c22: "count_sample n (blink_machine SLOW 0 22000) = 22000" for n
    by (simp add: blink_machine_sample)
  from blink_modify_threshold [OF a blink_machine_settles blink_machine_settles c20 c20]
  have 1: "map_option led_on (platform_blink_modify (blink_machine SLOW (push_bit 15 1) 20000))
     = Some False"
    by (auto simp add: blink_machine_simps)
  from blink_modify_threshold [OF a blink_machine_settles blink_machine_settles c22 c22]
  have 2: "map_option led_on (platform_blink_modify (blink_machine SLOW 0 22000)) = Some True"
    by (auto simp add: blink_machine_simps)
  from 1 2 show ?thesis ..
qed

text \<open>
  C8. In mode OFF the call does one thing, a write of bit 15 to \<^verbatim>\<open>PORT_OUTCLR\<close>, which
  leaves the LED dark; in mode ON one write of bit 15 to \<^verbatim>\<open>PORT_OUTSET\<close>, which leaves
  it lit. Neither depends on the hardware: the call always returns, reads no register
  (the trace gains the write alone) and consumes no counter or timer input.
\<close>

theorem blink_modify_off_on:
  "(currentSetting s = OFF \<longrightarrow>
      (\<exists>s'. platform_blink_modify s = Some s'
         \<and> new_events s s' = [Wr PORT_OUTCLR (push_bit 15 1)]
         \<and> inputs s' = inputs s \<and> \<not> led_on s'))
   \<and> (currentSetting s = ON \<longrightarrow>
      (\<exists>s'. platform_blink_modify s = Some s'
         \<and> new_events s s' = [Wr PORT_OUTSET (push_bit 15 1)]
         \<and> inputs s' = inputs s \<and> led_on s'))"
proof (intro conjI impI)
  assume "currentSetting s = OFF"
  then have "platform_blink_modify s = Some (reg_write PORT_OUTCLR (push_bit 15 1) s)"
    by (simp add: platform_blink_modify_def)
  then show "\<exists>s'. platform_blink_modify s = Some s'
         \<and> new_events s s' = [Wr PORT_OUTCLR (push_bit 15 1)]
         \<and> inputs s' = inputs s \<and> \<not> led_on s'"
    using led_after_write(1) [of s] reg_write_frame [where s = s and r = PORT_OUTCLR]
    by blast
next
  assume "currentSetting s = ON"
  then have "platform_blink_modify s = Some (reg_write PORT_OUTSET (push_bit 15 1) s)"
    by (simp add: platform_blink_modify_def)
  then show "\<exists>s'. platform_blink_modify s = Some s'
         \<and> new_events s s' = [Wr PORT_OUTSET (push_bit 15 1)]
         \<and> inputs s' = inputs s \<and> led_on s'"
    using led_after_write(2) [of s] reg_write_frame [where s = s and r = PORT_OUTSET]
    by blast
qed

theorem blink_modify_off_on_witness:
  "map_option led_on (platform_blink_modify (blink_machine OFF (push_bit 15 1) 30000))
     = Some False
   \<and> map_option led_on (platform_blink_modify (blink_machine ON 0 10)) = Some True"
  using blink_modify_off_on [of "blink_machine OFF (push_bit 15 1) 30000"]
        blink_modify_off_on [of "blink_machine ON 0 10"]
  by (auto simp add: blink_machine_simps)

text \<open>
  C10. In a timed mode, when both counter samples are equal to the threshold the code
  computes, the call writes neither \<^verbatim>\<open>PORT_OUTSET\<close> nor \<^verbatim>\<open>PORT_OUTCLR\<close>, and the
  output latch and the LED are as before the call. (Only FAST has a threshold that a
  counter value can equal: 3516.)
\<close>

theorem blink_modify_boundary_keeps_output:
  assumes "timed (currentSetting s)"
    and "settles (push_bit 6 1) (inputs s TC_SYNCBUSY)"
    and "settles (push_bit 2 1) (inputs s TC_SYNCBUSY)"
    and "of_int (count_sample 0 s) = code_threshold (currentSetting s)"
    and "of_int (count_sample 1 s) = code_threshold (currentSetting s)"
  shows "\<exists>s'. platform_blink_modify s = Some s'
     \<and> filter is_led_write (new_events s s') = []
     \<and> store s' PORT_OUT = store s PORT_OUT
     \<and> led_on s' = led_on s"
  using assms by (rule blink_modify_at_threshold)

theorem blink_modify_boundary_keeps_output_witness:
  "of_int (count_sample 0 (blink_machine FAST (push_bit 15 1) 3516)) = code_threshold FAST
   \<and> map_option led_on (platform_blink_modify (blink_machine FAST (push_bit 15 1) 3516))
       = Some True
   \<and> map_option (\<lambda>s'. filter is_led_write
          (new_events (blink_machine FAST (push_bit 15 1) 3516) s'))
        (platform_blink_modify (blink_machine FAST (push_bit 15 1) 3516)) = Some []"
proof -
  let ?m = "blink_machine FAST (push_bit 15 1) 3516"
  have t: "timed (currentSetting ?m)" by (simp add: blink_machine_simps)
  have c: "of_int (count_sample n ?m) = code_threshold (currentSetting ?m)" for n
    by (simp add: blink_machine_sample blink_machine_simps(1) code_threshold_values(3)
        del: code_threshold.simps)
  have l: "led_on ?m" by (simp add: led_on_def blink_machine_simps)
  from blink_modify_boundary_keeps_output
         [OF t blink_machine_settles blink_machine_settles c c] l c [of 0]
  show ?thesis by (auto simp add: blink_machine_simps(1) simp del: code_threshold.simps)
qed

section \<open>Properties of the initialisation\<close>

lemma precedes_append:
  "precedes P Q (xs @ ys) =
     (precedes P Q xs \<and> precedes P Q ys \<and> (list_ex Q xs \<longrightarrow> \<not> list_ex P ys))"
  by (induction xs) (auto simp add: list_ex_iff)

lemma precedes_none_left: "\<forall>e\<in>set t. \<not> P e \<Longrightarrow> precedes P Q t"
  by (induction t) (auto simp add: list_ex_iff)

lemma precedes_none_right: "\<forall>e\<in>set t. \<not> Q e \<Longrightarrow> precedes P Q t"
  by (induction t) (auto simp add: list_ex_iff)

lemma early_exclusive:
  "is_eic_early e \<Longrightarrow> \<not> is_clock e \<and> \<not> is_periph e \<and> \<not> is_eic_late e \<and> \<not> is_nvic e"
  by (induction e rule: is_eic_early.induct) auto

lemma periph_reg_exclusive:
  "is_periph_reg r \<Longrightarrow>
     \<not> is_eic_early (Rd r) \<and> \<not> is_eic_late (Rd r)
     \<and> \<not> is_eic_early (Wr r v) \<and> \<not> is_eic_late (Wr r v)"
  by (cases r) simp_all

lemma periph_exclusive:
  "is_periph e \<Longrightarrow> \<not> is_clock e \<and> \<not> is_eic_early e \<and> \<not> is_eic_late e \<and> \<not> is_nvic e"
  by (induction e rule: is_periph.induct) (simp_all add: periph_reg_exclusive)

lemma late_exclusive:
  "is_eic_late e \<Longrightarrow> \<not> is_clock e \<and> \<not> is_eic_early e \<and> \<not> is_periph e \<and> \<not> is_nvic e"
  by (induction e rule: is_eic_late.induct) auto

lemma sync_read_no_class:
  "\<not> is_clock (Rd EIC_SYNCBUSY)" "\<not> is_eic_early (Rd EIC_SYNCBUSY)"
  "\<not> is_periph (Rd EIC_SYNCBUSY)" "\<not> is_eic_late (Rd EIC_SYNCBUSY)"
  "\<not> is_nvic (Rd EIC_SYNCBUSY)"
  by simp_all

lemma classes_ordered_segments:
  assumes E: "\<forall>e\<in>set tE. is_eic_early e \<or> e = Rd EIC_SYNCBUSY" and E1: "list_ex is_eic_early tE"
    and P: "\<forall>e\<in>set tP. is_periph e" and P1: "tP \<noteq> []"
    and L: "\<forall>e\<in>set tL. is_eic_late e \<or> e = Rd EIC_SYNCBUSY" and L1: "list_ex is_eic_late tL"
  shows "init_classes_ordered (Call raise_perf_level # tE @ tP @ tL
           @ Call platform_systick_init # nvic_events)"
proof -
  have Ec: "\<forall>e\<in>set tE. \<not> is_clock e \<and> \<not> is_periph e \<and> \<not> is_eic_late e \<and> \<not> is_nvic e"
    using E early_exclusive sync_read_no_class by blast
  have Pc: "\<forall>e\<in>set tP. \<not> is_clock e \<and> \<not> is_eic_early e \<and> \<not> is_eic_late e \<and> \<not> is_nvic e"
    using P periph_exclusive by blast
  have Lc: "\<forall>e\<in>set tL. \<not> is_clock e \<and> \<not> is_eic_early e \<and> \<not> is_periph e \<and> \<not> is_nvic e"
    using L late_exclusive sync_read_no_class by blast
  have P2: "list_ex is_periph tP"
    using P P1 by (cases tP) (auto simp add: list_ex_iff)
  have Nn: "\<forall>e\<in>set nvic_events. is_nvic e \<and> \<not> is_clock e \<and> \<not> is_eic_early e
      \<and> \<not> is_periph e \<and> \<not> is_eic_late e"
    by (simp add: nvic_events_def)
  have Nl: "last nvic_events = NVIC_EnableIRQ SysTick_IRQn" "nvic_events \<noteq> []"
    by (simp_all add: nvic_events_def)
  have c1: "precedes is_clock (\<lambda>e. \<not> is_clock e)
      (Call raise_perf_level # tE @ tP @ tL @ Call platform_systick_init # nvic_events)"
    using Ec Pc Lc Nn by (auto simp add: precedes_append list_ex_iff precedes_none_left)
  have c2: "precedes is_eic_early is_periph
      (Call raise_perf_level # tE @ tP @ tL @ Call platform_systick_init # nvic_events)"
    using Ec Pc Lc Nn
    by (auto simp add: precedes_append list_ex_iff precedes_none_left precedes_none_right)
  have c3: "precedes is_periph is_eic_late
      (Call raise_perf_level # tE @ tP @ tL @ Call platform_systick_init # nvic_events)"
    using Ec Pc Lc Nn
    by (auto simp add: precedes_append list_ex_iff precedes_none_left precedes_none_right)
  have c4: "precedes is_eic_late is_nvic
      (Call raise_perf_level # tE @ tP @ tL @ Call platform_systick_init # nvic_events)"
    using Ec Pc Lc Nn
    by (auto simp add: precedes_append list_ex_iff precedes_none_left precedes_none_right)
  have c5: "precedes (\<lambda>e. \<not> is_nvic e) is_nvic
      (Call raise_perf_level # tE @ tP @ tL @ Call platform_systick_init # nvic_events)"
    using Ec Pc Lc Nn
    by (auto simp add: precedes_append list_ex_iff precedes_none_left precedes_none_right)
  have ex: "list_ex is_eic_early
      (Call raise_perf_level # tE @ tP @ tL @ Call platform_systick_init # nvic_events)"
    "list_ex is_periph
      (Call raise_perf_level # tE @ tP @ tL @ Call platform_systick_init # nvic_events)"
    "list_ex is_eic_late
      (Call raise_perf_level # tE @ tP @ tL @ Call platform_systick_init # nvic_events)"
    "list_ex is_nvic
      (Call raise_perf_level # tE @ tP @ tL @ Call platform_systick_init # nvic_events)"
    using E1 P2 L1 by (auto simp add: list_ex_iff nvic_events_def)
  have la: "last (Call raise_perf_level # tE @ tP @ tL @ Call platform_systick_init # nvic_events)
      = NVIC_EnableIRQ SysTick_IRQn"
    using Nl by simp
  show ?thesis
    unfolding init_classes_ordered_def using c1 c2 c3 c4 c5 ex la by simp
qed

lemma statements_simps:
  "statements [] s = s" "statements (f # fs) s = statements fs (f s)"
  by (simp_all add: statements_def)

lemma or_and_enable: "(x OR 0x02) AND (0x02 :: 32 word) \<noteq> 0"
proof -
  have "(x OR 0x02) AND (0x02 :: 32 word) = 0x02"
    by (simp add: bit.conj_disj_distrib2 word_ao_absorbs)
  then show ?thesis by simp
qed

lemma EIC_init_early_returns:
  assumes G: "inputs s GCLK_PCHCTRL4 !! n AND 0x00000042 \<noteq> 0"
    and S: "settles 0x01 (inputs s EIC_SYNCBUSY)"
  shows "\<exists>s' k1 k2. EIC_init_early s = Some s' \<and> k1 \<le> n
     \<and> trace s' = trace s @ eic_early_trace k1 k2
     \<and> store s' = (store s)(GCLK_PCHCTRL4 := 0x00000042, EIC_CTRLA := 0x01,
                              EIC_DPRESCALER := 0xF)
     \<and> inputs s' EIC_SYNCBUSY = sdrop (Suc k2) (inputs s EIC_SYNCBUSY)
     \<and> inputs s' EIC_CTRLA = inputs s EIC_CTRLA"
proof -
  define a1 where "a1 = reg_write GCLK_PCHCTRL4 0x00000042 s"
  have "inputs a1 GCLK_PCHCTRL4 !! n AND 0x00000042 \<noteq> 0"
    using G by (simp add: a1_def reg_write_def)
  from spin_while_clear_returns [OF _ this] obtain k1 where
    k1: "spin_while_clear GCLK_PCHCTRL4 0x00000042 a1 = Some (polled GCLK_PCHCTRL4 (Suc k1) a1)"
    and le: "k1 \<le> n"
    by auto
  define a3 where "a3 = reg_write EIC_CTRLA 0x01 (polled GCLK_PCHCTRL4 (Suc k1) a1)"
  have "settles 0x01 (inputs a3 EIC_SYNCBUSY)"
    using S by (simp add: a3_def a1_def reg_write_def polled_def)
  from spin_settles [OF _ this] obtain k2 where
    k2: "spin_while_set EIC_SYNCBUSY 0x01 a3 = Some (polled EIC_SYNCBUSY (Suc k2) a3)"
    by auto
  define a5 where "a5 = reg_write EIC_DPRESCALER (push_bit 16 0 OR push_bit 4 0 OR push_bit 0 15)
      (polled EIC_SYNCBUSY (Suc k2) a3)"
  have run: "EIC_init_early s = Some a5"
    unfolding EIC_init_early_def
    by (simp only: Option.bind.bind_lunit k1 k2 flip: a1_def a3_def a5_def)
  have tr: "trace a5 = trace s @ eic_early_trace k1 k2"
    by (simp add: a5_def a3_def a1_def eic_early_trace_def reg_write_def polled_def)
  have st: "store a5 = (store s)(GCLK_PCHCTRL4 := 0x00000042, EIC_CTRLA := 0x01,
                              EIC_DPRESCALER := 0xF)"
    by (simp add: a5_def a3_def a1_def reg_write_def polled_def)
  have inp: "inputs a5 EIC_SYNCBUSY = sdrop (Suc k2) (inputs s EIC_SYNCBUSY)"
    "inputs a5 EIC_CTRLA = inputs s EIC_CTRLA"
    by (simp_all add: a5_def a3_def a1_def reg_write_def polled_def)
  show ?thesis using run le tr st inp by blast
qed

lemma EIC_init_late_returns:
  assumes S: "settles 0x02 (inputs s EIC_SYNCBUSY)"
  shows "\<exists>s' k3. EIC_init_late s = Some s'
     \<and> trace s' = trace s @ eic_late_trace (shd (inputs s EIC_CTRLA)) k3"
proof -
  define a1 where "a1 = reg_set_bits EIC_CTRLA 0x02 s"
  have "settles 0x02 (inputs a1 EIC_SYNCBUSY)"
    using S by (simp add: a1_def reg_set_bits_def reg_write_def reg_read_def)
  from spin_settles [OF _ this] obtain k where
    k: "spin_while_set EIC_SYNCBUSY 0x02 a1 = Some (polled EIC_SYNCBUSY (Suc k) a1)"
    by auto
  have run: "EIC_init_late s = Some (polled EIC_SYNCBUSY (Suc k) a1)"
    unfolding EIC_init_late_def by (simp only: Option.bind.bind_lunit k flip: a1_def)
  have tr: "trace (polled EIC_SYNCBUSY (Suc k) a1)
      = trace s @ eic_late_trace (shd (inputs s EIC_CTRLA)) k"
    by (simp add: a1_def eic_late_trace_def reg_set_bits_def reg_write_def reg_read_def
        polled_def)
  show ?thesis using run tr by blast
qed

lemma peripherals_segment:
  "trace (call platform_usart_init (blink_init (Emergency_Pins_Init (PB_init
          (call TC0_Init s))))) = trace s @ peripherals_trace (store s)"
  by (simp add: call_def emit_def blink_init_def Emergency_Pins_Init_def PB_init_def
      statements_simps reg_set_bits_def reg_clear_bits_def reg_read_def reg_write_def
      peripherals_trace_def Let_def)

lemma peripherals_inputs:
  "inputs (call platform_usart_init (blink_init (Emergency_Pins_Init (PB_init
          (call TC0_Init s))))) = inputs s"
  by (simp add: call_def emit_def blink_init_def Emergency_Pins_Init_def PB_init_def
      statements_simps reg_set_bits_def reg_clear_bits_def reg_read_def reg_write_def)

lemma peripherals_trace_early:
  "peripherals_trace (st(EVSYS_CTRLA := a, GCLK_PCHCTRL4 := b, EIC_CTRLA := c,
      EIC_DPRESCALER := d)) = peripherals_trace st"
  by (simp add: peripherals_trace_def)

lemma nvic_segment:
  "trace (NVIC_init (call platform_systick_init s))
     = trace s @ Call platform_systick_init # nvic_events"
  by (simp add: NVIC_init_def call_def emit_def statements_simps nvic_events_def)

lemma early_trace_classes:
  "\<forall>e\<in>set (Wr EVSYS_CTRLA 0x01 # eic_early_trace k1 k2).
      is_eic_early e \<or> e = Rd EIC_SYNCBUSY"
  "list_ex is_eic_early (Wr EVSYS_CTRLA 0x01 # eic_early_trace k1 k2)"
  by (auto simp add: eic_early_trace_def)

lemma peripherals_trace_classes:
  "\<forall>e\<in>set (peripherals_trace st). is_periph e" "peripherals_trace st \<noteq> []"
  by (simp_all add: peripherals_trace_def Let_def)

lemma late_trace_classes:
  "\<forall>e\<in>set (eic_late_trace x k3). is_eic_late e \<or> e = Rd EIC_SYNCBUSY"
  "list_ex is_eic_late (eic_late_trace x k3)"
  using or_and_enable by (auto simp add: eic_late_trace_def)

lemma drop_to_suffix: "drop (length (xs @ ys) - length ys) (xs @ ys) = ys"
  by simp

lemma platform_init_trace_steps: "init_steps (platform_init_trace k1 k2 k3 s)"
proof -
  have sfx: "drop (length (platform_init_trace k1 k2 k3 s) - length nvic_events)
      (platform_init_trace k1 k2 k3 s) = nvic_events"
    using drop_to_suffix [of "Call raise_perf_level # Wr EVSYS_CTRLA 0x01 # eic_early_trace k1 k2
       @ peripherals_trace (store s) @ eic_late_trace (shd (inputs s EIC_CTRLA)) k3
       @ [Call platform_systick_init]" nvic_events]
    by (simp add: platform_init_trace_def)
  have early: "Call raise_perf_level \<in> set (platform_init_trace k1 k2 k3 s)"
    "Wr EVSYS_CTRLA 0x01 \<in> set (platform_init_trace k1 k2 k3 s)"
    "Wr GCLK_PCHCTRL4 0x00000042 \<in> set (platform_init_trace k1 k2 k3 s)"
    "Wr EIC_CTRLA 0x01 \<in> set (platform_init_trace k1 k2 k3 s)"
    "list_ex (writes EIC_DPRESCALER) (platform_init_trace k1 k2 k3 s)"
    by (simp_all add: platform_init_trace_def eic_early_trace_def)
  have per: "Call TC0_Init \<in> set (peripherals_trace (store s))"
    "list_ex (writes (PORT_PINCFG 23)) (peripherals_trace (store s))"
    "list_ex (writes EIC_DEBOUNCEN) (peripherals_trace (store s))"
    "list_ex (writes EIC_CONFIG0) (peripherals_trace (store s))"
    "Wr EIC_INTENSET 0x00000004 \<in> set (peripherals_trace (store s))"
    "list_ex (writes (PORT_PINCFG 19)) (peripherals_trace (store s))"
    "list_ex (writes (PORT_PINCFG 18)) (peripherals_trace (store s))"
    "list_ex (writes PORT_DIRSET) (peripherals_trace (store s))"
    "list_ex (writes (PORT_PINCFG 15)) (peripherals_trace (store s))"
    "Call platform_usart_init \<in> set (peripherals_trace (store s))"
    by (simp_all add: peripherals_trace_def Let_def)
  have late: "list_ex is_eic_late (platform_init_trace k1 k2 k3 s)"
    using late_trace_classes(2) [of "shd (inputs s EIC_CTRLA)" k3]
    by (simp add: platform_init_trace_def list_ex_iff) blast
  have tick: "Call platform_systick_init \<in> set (platform_init_trace k1 k2 k3 s)"
    by (simp add: platform_init_trace_def)
  have per': "Call TC0_Init \<in> set (platform_init_trace k1 k2 k3 s)"
    "list_ex (writes (PORT_PINCFG 23)) (platform_init_trace k1 k2 k3 s)"
    "list_ex (writes EIC_DEBOUNCEN) (platform_init_trace k1 k2 k3 s)"
    "list_ex (writes EIC_CONFIG0) (platform_init_trace k1 k2 k3 s)"
    "Wr EIC_INTENSET 0x00000004 \<in> set (platform_init_trace k1 k2 k3 s)"
    "list_ex (writes (PORT_PINCFG 19)) (platform_init_trace k1 k2 k3 s)"
    "list_ex (writes (PORT_PINCFG 18)) (platform_init_trace k1 k2 k3 s)"
    "list_ex (writes PORT_DIRSET) (platform_init_trace k1 k2 k3 s)"
    "list_ex (writes (PORT_PINCFG 15)) (platform_init_trace k1 k2 k3 s)"
    "Call platform_usart_init \<in> set (platform_init_trace k1 k2 k3 s)"
    using per unfolding platform_init_trace_def list_ex_iff by auto
  show ?thesis
    unfolding init_steps_def using sfx early per' late tick by simp
qed

lemma platform_init_trace_order: "init_order (platform_init_trace k1 k2 k3 s)"
proof -
  have "init_classes_ordered (Call raise_perf_level # (Wr EVSYS_CTRLA 0x01 # eic_early_trace k1 k2)
      @ peripherals_trace (store s) @ eic_late_trace (shd (inputs s EIC_CTRLA)) k3
      @ Call platform_systick_init # nvic_events)"
    by (rule classes_ordered_segments
          [OF early_trace_classes peripherals_trace_classes late_trace_classes])
  then have "init_classes_ordered (platform_init_trace k1 k2 k3 s)"
    by (simp add: platform_init_trace_def)
  with platform_init_trace_steps show ?thesis
    by (simp add: init_order_def)
qed

lemma platform_init_returns:
  assumes G: "inputs s GCLK_PCHCTRL4 !! n AND 0x00000042 \<noteq> 0"
    and S1: "settles 0x01 (inputs s EIC_SYNCBUSY)"
    and S2: "settles 0x02 (inputs s EIC_SYNCBUSY)"
  shows "\<exists>s' k1 k2 k3. platform_init s = Some s' \<and> k1 \<le> n
     \<and> new_events s s' = platform_init_trace k1 k2 k3 s"
proof -
  define a2 where "a2 = EVSYS_init (call raise_perf_level s)"
  have tr2: "trace a2 = trace s @ [Call raise_perf_level, Wr EVSYS_CTRLA 0x01]"
    and in2: "inputs a2 = inputs s"
    and st2: "store a2 = (store s)(EVSYS_CTRLA := 0x01)"
    by (simp_all add: a2_def EVSYS_init_def call_def emit_def reg_write_def)
  from EIC_init_early_returns [of a2 n] G S1 obtain a3 k1 k2 where
    r3: "EIC_init_early a2 = Some a3" and le: "k1 \<le> n"
    and tr3: "trace a3 = trace a2 @ eic_early_trace k1 k2"
    and st3: "store a3 = (store a2)(GCLK_PCHCTRL4 := 0x00000042, EIC_CTRLA := 0x01,
                              EIC_DPRESCALER := 0xF)"
    and in3: "inputs a3 EIC_SYNCBUSY = sdrop (Suc k2) (inputs s EIC_SYNCBUSY)"
      "inputs a3 EIC_CTRLA = inputs s EIC_CTRLA"
    unfolding in2 by blast
  define a8 where "a8 = call platform_usart_init (blink_init (Emergency_Pins_Init (PB_init
          (call TC0_Init a3))))"
  have "peripherals_trace (store a3) = peripherals_trace (store s)"
    unfolding st3 st2 by (rule peripherals_trace_early)
  then have tr8: "trace a8 = trace a3 @ peripherals_trace (store s)"
    unfolding a8_def peripherals_segment by simp
  have in8: "inputs a8 EIC_SYNCBUSY = sdrop (Suc k2) (inputs s EIC_SYNCBUSY)"
    "inputs a8 EIC_CTRLA = inputs s EIC_CTRLA"
    unfolding a8_def peripherals_inputs by (rule in3)+
  have "settles 0x02 (inputs a8 EIC_SYNCBUSY)"
    unfolding in8 using S2 by (rule settles_sdrop)
  from EIC_init_late_returns [OF this] obtain a9 k3 where
    r9: "EIC_init_late a8 = Some a9"
    and tr9: "trace a9 = trace a8 @ eic_late_trace (shd (inputs s EIC_CTRLA)) k3"
    unfolding in8 by blast
  define a11 where "a11 = NVIC_init (call platform_systick_init a9)"
  have run: "platform_init s = Some a11"
    unfolding platform_init_def
    by (simp only: Option.bind.bind_lunit r3 r9 flip: a2_def a8_def a11_def)
  have "trace a11 = trace s @ platform_init_trace k1 k2 k3 s"
    unfolding a11_def nvic_segment tr9 tr8 tr3 tr2 platform_init_trace_def by simp
  then have "new_events s a11 = platform_init_trace k1 k2 k3 s"
    by (rule new_events_append)
  with run le show ?thesis by blast
qed

lemma init_machine_ready:
  "inputs init_machine GCLK_PCHCTRL4 !! 0 AND 0x00000042 \<noteq> 0"
  "settles m (inputs init_machine EIC_SYNCBUSY)"
  by (simp_all add: init_machine_def reset_machine_def idle_inputs_def settles_sconst)

text \<open>
  C7. When the hardware lets the three waits of the bring-up end (the GCLK channel of
  the EIC reads back enabled at some poll, and the EIC's reset and enable
  synchronisation flags clear), \<^verbatim>\<open>platform_init\<close> returns, and what it has done is
  exactly the trace \<open>platform_init_trace\<close>, up to the number of polls of each wait:
  the clock and power step first, then the early interrupt-controller configuration
  (EVSYS, EIC), then the peripheral configuration (timer, pushbutton, emergency pins
  and LED pin, serial), then the late EIC enable, then the SysTick initialiser, and the
  six events of \<^verbatim>\<open>NVIC_init\<close> last. Every one of these steps is in the trace, the
  steps are in this order, and the interrupt enable comes after every other event.
\<close>

theorem platform_init_order:
  assumes "inputs s GCLK_PCHCTRL4 !! n AND 0x00000042 \<noteq> 0"
    and "settles 0x01 (inputs s EIC_SYNCBUSY)"
    and "settles 0x02 (inputs s EIC_SYNCBUSY)"
  shows "\<exists>s' k1 k2 k3. platform_init s = Some s' \<and> k1 \<le> n
     \<and> new_events s s' = platform_init_trace k1 k2 k3 s
     \<and> init_order (new_events s s')"
proof -
  from platform_init_returns [OF assms] obtain s' k1 k2 k3 where
    "platform_init s = Some s'" "k1 \<le> n" "new_events s s' = platform_init_trace k1 k2 k3 s"
    by blast
  moreover from this have "init_order (new_events s s')"
    by (simp only: platform_init_trace_order)
  ultimately show ?thesis by blast
qed

theorem platform_init_order_witness:
  "map_option (\<lambda>s'. init_order (new_events init_machine s')) (platform_init init_machine)
     = Some True
   \<and> map_option (\<lambda>s'. take 4 (new_events init_machine s')) (platform_init init_machine)
     = Some [Call raise_perf_level, Wr EVSYS_CTRLA 0x01, Wr GCLK_PCHCTRL4 0x00000042,
             Rd GCLK_PCHCTRL4]
   \<and> map_option (\<lambda>s'. Wr EIC_INTENSET 0x00000004 \<in> set (new_events init_machine s'))
       (platform_init init_machine) = Some True"
  using platform_init_order [OF init_machine_ready(1) init_machine_ready(2)
          init_machine_ready(2)]
  by (auto simp add: platform_init_trace_def eic_early_trace_def init_order_def init_steps_def)

section \<open>Properties of the tick arithmetic\<close>

lemma uint32_range: "0 \<le> uint (w :: 32 word) \<and> uint w < 4294967296"
  using uint_lt2p [of w] by simp

lemma uint_word_of_int_32:
  "0 \<le> k \<Longrightarrow> k < 4294967296 \<Longrightarrow> uint (word_of_int k :: 32 word) = k"
  by (simp add: uint_word_of_int_eq take_bit_int_eq_self)

lemma tick_delta_sound:
  assumes vl: "tick_valid lhs" and vr: "tick_valid rhs"
  shows "tick_ns (platform_tick_delta lhs rhs) =
           (if tick_ns rhs \<le> tick_ns lhs then tick_ns lhs - tick_ns rhs
            else tick_ns lhs + counter_period_ns - tick_ns rhs)
         \<and> tick_valid (platform_tick_delta lhs rhs)"
proof -
  define a b c d where "a = uint (nr_sec lhs)" and "b = uint (nr_nsec lhs)"
    and "c = uint (nr_sec rhs)" and "d = uint (nr_nsec rhs)"
  have ra: "0 \<le> a" "a < 4294967296" and rc: "0 \<le> c" "c < 4294967296"
    using uint32_range [of "nr_sec lhs"] uint32_range [of "nr_sec rhs"]
    by (simp_all add: a_def c_def)
  have rb: "0 \<le> b" "b \<le> 999999999" and rd: "0 \<le> d" "d \<le> 999999999"
    using vl vr by (simp_all add: tick_valid_def b_def d_def word_le_def)
  define rolled where "rolled = (a < c \<or> (a = c \<and> b < d))"
  have cmp: "(platform_timespec_compare lhs rhs < 0) = rolled"
    unfolding platform_timespec_compare_def rolled_def a_def b_def c_def d_def
    by (auto simp add: word_less_def)
  have bor: "(nr_nsec lhs < nr_nsec rhs) = (b < d)"
    by (simp add: word_less_def b_def d_def)
  define nsec where "nsec = b + (if b < d then 1000000000 else 0) - d"
  define sec where "sec = a + (if rolled then 2 ^ 32 else 0) - (if b < d then 1 else 0) - c"
  have res: "platform_tick_delta lhs rhs = \<lparr>nr_sec = word_of_int sec, nr_nsec = word_of_int nsec\<rparr>"
    unfolding platform_tick_delta_def Let_def cmp bor nsec_def sec_def a_def b_def c_def d_def
    by (rule refl)
  have rn: "0 \<le> nsec" "nsec \<le> 999999999"
    using rb rd by (auto simp add: nsec_def)
  have rs: "0 \<le> sec" "sec < 4294967296"
    using ra rc rb rd by (auto simp add: sec_def rolled_def)
  have un: "uint (word_of_int nsec :: 32 word) = nsec"
    using rn by (intro uint_word_of_int_32) simp_all
  have us: "uint (word_of_int sec :: 32 word) = sec"
    using rs by (intro uint_word_of_int_32)
  have tl: "tick_ns lhs = a * 1000000000 + b" and tr: "tick_ns rhs = c * 1000000000 + d"
    by (simp_all add: tick_ns_def a_def b_def c_def d_def)
  have ord: "(tick_ns rhs \<le> tick_ns lhs) = (\<not> rolled)"
    unfolding tl tr rolled_def using ra rc rb rd by auto
  have "tick_ns (platform_tick_delta lhs rhs) = sec * 1000000000 + nsec"
    by (simp add: res tick_ns_def un us)
  also have "\<dots> = (if \<not> rolled then tick_ns lhs - tick_ns rhs
            else tick_ns lhs + counter_period_ns - tick_ns rhs)"
    unfolding tl tr sec_def nsec_def counter_period_ns_def by auto
  finally have 1: "tick_ns (platform_tick_delta lhs rhs) =
           (if tick_ns rhs \<le> tick_ns lhs then tick_ns lhs - tick_ns rhs
            else tick_ns lhs + counter_period_ns - tick_ns rhs)"
    by (simp only: ord)
  have "(word_of_int nsec :: 32 word) \<le> 999999999"
    using rn un by (simp add: word_le_def)
  then have 2: "tick_valid (platform_tick_delta lhs rhs)"
    by (simp add: res tick_valid_def)
  from 1 2 show ?thesis ..
qed

text \<open>
  C5. For two valid ticks, \<^verbatim>\<open>platform_tick_delta\<close> yields a valid tick (the nanosecond
  borrow is normalised) whose duration is \<open>lhs - rhs\<close> when \<open>lhs\<close> is not earlier than
  \<open>rhs\<close>, and otherwise \<open>lhs - rhs\<close> plus one full period of the counter: the small
  positive duration across a single wraparound, not the huge value of a subtraction that
  ignores it.
\<close>

theorem tick_delta_corrects_one_wraparound:
  assumes "tick_valid lhs" and "tick_valid rhs"
  shows "tick_ns (platform_tick_delta lhs rhs) =
           (if tick_ns rhs \<le> tick_ns lhs then tick_ns lhs - tick_ns rhs
            else tick_ns lhs + counter_period_ns - tick_ns rhs)
         \<and> tick_valid (platform_tick_delta lhs rhs)"
  using assms by (rule tick_delta_sound)

theorem tick_delta_corrects_one_wraparound_witness:
  "tick_ns (platform_tick_delta \<lparr>nr_sec = 0, nr_nsec = 100\<rparr>
             \<lparr>nr_sec = 0xFFFFFFFF, nr_nsec = 999999900\<rparr>) = 200"
proof -
  have l: "tick_valid \<lparr>nr_sec = 0, nr_nsec = 100\<rparr>"
    by (simp add: tick_valid_def)
  have r: "tick_valid \<lparr>nr_sec = 0xFFFFFFFF, nr_nsec = 999999900\<rparr>"
    by (simp add: tick_valid_def)
  show ?thesis
    using tick_delta_corrects_one_wraparound [OF l r]
    by (simp add: tick_ns_def counter_period_ns_def)
qed

section \<open>Properties of the serial transmission\<close>

lemma idle_channel_not_busy: "\<not> platform_usart_cdc_tx_busy idle_channel"
  by (simp add: platform_usart_cdc_tx_busy_def idle_channel_def)

text \<open>
  C6. While a transmission is in progress, \<^verbatim>\<open>platform_usart_cdc_tx_async\<close> returns
  false and leaves the channel as it was; after \<^verbatim>\<open>platform_usart_cdc_tx_abort\<close>, or
  after the transmission has completed, it returns true. So the second of two enqueues
  in a row is rejected, and an enqueue after an abort is accepted.
\<close>

theorem tx_async_single_outstanding:
  "(platform_usart_cdc_tx_busy ch \<longrightarrow>
      platform_usart_cdc_tx_async d ch = (False, ch))
   \<and> fst (platform_usart_cdc_tx_async d (platform_usart_cdc_tx_abort ch))
   \<and> fst (platform_usart_cdc_tx_async d (tx_complete ch))
   \<and> (\<not> platform_usart_cdc_tx_busy ch \<longrightarrow>
        fst (platform_usart_cdc_tx_async d ch)
        \<and> \<not> fst (platform_usart_cdc_tx_async d' (snd (platform_usart_cdc_tx_async d ch)))
        \<and> snd (platform_usart_cdc_tx_async d' (snd (platform_usart_cdc_tx_async d ch)))
            = snd (platform_usart_cdc_tx_async d ch))"
  by (simp add: platform_usart_cdc_tx_async_def platform_usart_cdc_tx_busy_def
      platform_usart_cdc_tx_abort_def tx_complete_def)

theorem tx_async_single_outstanding_witness:
  "fst (platform_usart_cdc_tx_async hello_desc idle_channel)
   \<and> platform_usart_cdc_tx_busy (snd (platform_usart_cdc_tx_async hello_desc idle_channel))
   \<and> platform_usart_cdc_tx_async hello_desc
        (snd (platform_usart_cdc_tx_async hello_desc idle_channel))
       = (False, snd (platform_usart_cdc_tx_async hello_desc idle_channel))
   \<and> fst (platform_usart_cdc_tx_async hello_desc (platform_usart_cdc_tx_abort
        (snd (platform_usart_cdc_tx_async hello_desc idle_channel))))"
proof -
  have b: "platform_usart_cdc_tx_busy (snd (platform_usart_cdc_tx_async hello_desc idle_channel))"
    by (simp add: platform_usart_cdc_tx_async_def platform_usart_cdc_tx_busy_def
        idle_channel_def)
  show ?thesis
    using tx_async_single_outstanding [of idle_channel hello_desc hello_desc]
      tx_async_single_outstanding
        [of "snd (platform_usart_cdc_tx_async hello_desc idle_channel)" hello_desc hello_desc]
      idle_channel_not_busy b
    by simp
qed

end
